theory Spec2Isabelle
  imports Complex_Main "HOL-Library.Multiset"
begin

section \<open>Temporal mapping: human years and astronomical years\<close>

text \<open>
  A JavaScript number is a double. Numbers are modelled as reals, and the two helpers
  round the one sum and the one difference they compute to the nearest double, ties to
  the even significand: \<open>binade\<close> is the exponent of the binade of a real (not below
  the least normal exponent), \<open>ulp\<close> the spacing of the doubles in that binade. A sum
  \<open>y + 1\<close> or a difference \<open>a - 1\<close> of a double and 1 never exceeds the largest double, so
  overflow does not arise.
  \<^verbatim>\<open>const toAstronomical = (y) => (y <= 0 ? y + 1 : y);\<close>
  \<^verbatim>\<open>const fromAstronomical = (a) => (a <= 0 ? a - 1 : a);\<close>
\<close>

definition binade :: "real \<Rightarrow> int" where
  "binade x = max (- 1022) \<lfloor>log 2 \<bar>x\<bar>\<rfloor>"

definition ulp :: "real \<Rightarrow> real" where
  "ulp x = 2 powr real_of_int (binade x - 52)"

definition roundHalfEven :: "real \<Rightarrow> int" where
  "roundHalfEven q =
     (let f = \<lfloor>q\<rfloor>
      in if q - real_of_int f < 1 / 2 then f
         else if q - real_of_int f > 1 / 2 then f + 1
         else if even f then f else f + 1)"

definition roundToDouble :: "real \<Rightarrow> real" where
  "roundToDouble x = (if x = 0 then 0 else real_of_int (roundHalfEven (x / ulp x)) * ulp x)"

definition toAstronomical :: "real \<Rightarrow> real" where
  "toAstronomical y = (if y \<le> 0 then roundToDouble (y + 1) else y)"

definition fromAstronomical :: "real \<Rightarrow> real" where
  "fromAstronomical a = (if a \<le> 0 then roundToDouble (a - 1) else a)"

section \<open>Interaction state machine\<close>

text \<open>
  The mutable refs of the component that the pointer and zoom handlers read and write,
  as one record. Ids are strings; a ref holding \<open>null\<close> is \<open>None\<close>.
\<close>

record interaction =
  kRef :: real
  prevZoomedInRef :: bool
  hoveredDurationIdRef :: "string option"
  zoomDraggingRef :: bool
  activeSegIdRef :: "string option"
  activeDurationIdRef :: "string option"
  hoveredSegParentIdRef :: "string option"
  awaitingCloseClickRef :: bool

definition ZOOM_THRESHOLD :: real where
  "ZOOM_THRESHOLD = 24 / 10"

definition MIN_ZOOM :: real where
  "MIN_ZOOM = 9 / 10"

text \<open>JavaScript truthiness of an id ref: \<open>null\<close> and the empty string are falsy.\<close>

definition truthy :: "string option \<Rightarrow> bool" where
  "truthy r = (case r of None \<Rightarrow> False | Some s \<Rightarrow> s \<noteq> [])"

text \<open>
  State before the first zoom event: the refs' initial values, with \<open>kRef\<close> set from
  the initial transform (scale \<open>MIN_ZOOM\<close>) when no transform has been stored yet.
\<close>

definition initialInteraction :: interaction where
  "initialInteraction =
     \<lparr> kRef = MIN_ZOOM, prevZoomedInRef = False, hoveredDurationIdRef = None,
       zoomDraggingRef = False, activeSegIdRef = None, activeDurationIdRef = None,
       hoveredSegParentIdRef = None, awaitingCloseClickRef = False \<rparr>"

definition clearActiveSegment :: "interaction \<Rightarrow> interaction" where
  "clearActiveSegment st = st\<lparr>activeSegIdRef := None, hoveredSegParentIdRef := None\<rparr>"

definition clearActiveDuration :: "interaction \<Rightarrow> interaction" where
  "clearActiveDuration st = st\<lparr>activeDurationIdRef := None, awaitingCloseClickRef := False\<rparr>"

text \<open>
  \<open>setActiveSegment\<close> and \<open>setActiveDuration\<close> take the datum of the clicked element;
  \<open>None\<close> stands for a missing datum, which clears instead.
\<close>

definition setActiveSegment :: "string option \<Rightarrow> interaction \<Rightarrow> interaction" where
  "setActiveSegment seg st =
     (case seg of None \<Rightarrow> clearActiveSegment st
      | Some i \<Rightarrow> st\<lparr>activeSegIdRef := Some i\<rparr>)"

definition setActiveDuration :: "string option \<Rightarrow> interaction \<Rightarrow> interaction" where
  "setActiveDuration outline st =
     (case outline of None \<Rightarrow> clearActiveDuration st
      | Some i \<Rightarrow> st\<lparr>activeDurationIdRef := Some i\<rparr>)"

text \<open>
  \<open>syncDurationHoverFromPointer\<close>. The source event is \<open>None\<close> when the zoom was
  programmatic or the event carries no client coordinates; otherwise it holds the id of
  the outline rectangle under the pointer, if there is one.
\<close>

definition syncDurationHoverFromPointer ::
    "string option option \<Rightarrow> interaction \<Rightarrow> interaction" where
  "syncDurationHoverFromPointer se st =
     (case se of
        None \<Rightarrow> st
      | Some newId \<Rightarrow>
          if kRef st \<ge> ZOOM_THRESHOLD then st
          else if hoveredDurationIdRef st \<noteq> newId then st\<lparr>hoveredDurationIdRef := newId\<rparr>
          else st)"

definition updateInteractivity :: "real \<Rightarrow> interaction \<Rightarrow> interaction" where
  "updateInteractivity k st =
     (let zoomedIn = (k \<ge> ZOOM_THRESHOLD)
      in if \<not> zoomedIn then clearActiveSegment st else clearActiveDuration st)"

subsection \<open>Handlers of the outline rectangles (overview mode)\<close>

definition outlineMouseEnter :: "string \<Rightarrow> interaction \<Rightarrow> interaction" where
  "outlineMouseEnter d st =
     (if kRef st \<ge> ZOOM_THRESHOLD then st
      else if truthy (activeDurationIdRef st) then st
      else st\<lparr>hoveredDurationIdRef := Some d\<rparr>)"

definition outlineMouseLeave :: "interaction \<Rightarrow> interaction" where
  "outlineMouseLeave st =
     (if kRef st \<ge> ZOOM_THRESHOLD then st
      else if zoomDraggingRef st then st
      else if truthy (activeDurationIdRef st) then st
      else st\<lparr>hoveredDurationIdRef := None\<rparr>)"

text \<open>
  The click handler of an outline rectangle returns the new state and whether the event
  still propagates to the handler on the root element (\<open>stopPropagation\<close> was not called).
\<close>

definition outlineClick :: "string \<Rightarrow> interaction \<Rightarrow> interaction \<times> bool" where
  "outlineClick d st =
     (if kRef st \<ge> ZOOM_THRESHOLD then (st, True)
      else if awaitingCloseClickRef st
        then (clearActiveDuration (st\<lparr>awaitingCloseClickRef := False\<rparr>), False)
      else ((setActiveDuration (Some d) (clearActiveSegment st))\<lparr>awaitingCloseClickRef := True\<rparr>,
            False))"

subsection \<open>Handler on the root element\<close>

definition svgClick :: "bool \<Rightarrow> bool \<Rightarrow> interaction \<Rightarrow> interaction" where
  "svgClick isSeg isOutline st =
     (if awaitingCloseClickRef st
        then clearActiveDuration (st\<lparr>awaitingCloseClickRef := False\<rparr>)
      else if \<not> isSeg \<and> \<not> isOutline then clearActiveDuration (clearActiveSegment st)
      else st)"

subsection \<open>Handlers of the segment hit rectangles and of the marks (detail mode)\<close>

definition segMouseEnter :: "string \<Rightarrow> string \<Rightarrow> interaction \<Rightarrow> interaction" where
  "segMouseEnter segId parent st =
     (if activeSegIdRef st = Some segId then st
      else st\<lparr>hoveredSegParentIdRef := Some parent\<rparr>)"

definition segMouseLeave :: "string \<Rightarrow> interaction \<Rightarrow> interaction" where
  "segMouseLeave segId st =
     (if zoomDraggingRef st then st
      else if activeSegIdRef st = Some segId then st
      else st\<lparr>hoveredSegParentIdRef := None\<rparr>)"

definition segClick :: "string \<Rightarrow> interaction \<Rightarrow> interaction" where
  "segClick segId st =
     (let isSame = (activeSegIdRef st = Some segId)
      in if isSame then clearActiveSegment st
         else setActiveSegment (Some segId) (clearActiveDuration (clearActiveSegment st)))"

text \<open>A click on an author line or a text dot dismisses the active segment and stops.\<close>

definition markClick :: "interaction \<Rightarrow> interaction" where
  "markClick st = clearActiveSegment st"

subsection \<open>Zoom handlers\<close>

definition zoomStart :: "interaction \<Rightarrow> interaction" where
  "zoomStart st = st\<lparr>zoomDraggingRef := True\<rparr>"

definition thresholdHandoff :: "real \<Rightarrow> interaction \<Rightarrow> interaction" where
  "thresholdHandoff k st =
     (let zoomedIn = (k \<ge> ZOOM_THRESHOLD);
          wasZoomedIn = prevZoomedInRef st;
          st1 = (if zoomedIn \<and> \<not> wasZoomedIn
                 then clearActiveDuration
                        (st\<lparr>hoveredDurationIdRef := None, awaitingCloseClickRef := False\<rparr>)
                 else st);
          st2 = (if \<not> zoomedIn \<and> wasZoomedIn then clearActiveSegment st1 else st1)
      in st2\<lparr>prevZoomedInRef := zoomedIn\<rparr>)"

definition zoomEvent :: "real \<Rightarrow> string option option \<Rightarrow> interaction \<Rightarrow> interaction" where
  "zoomEvent k se st =
     thresholdHandoff k
       (syncDurationHoverFromPointer se
         (updateInteractivity k (st\<lparr>kRef := k\<rparr>)))"

definition zoomEnd :: "string option option \<Rightarrow> interaction \<Rightarrow> interaction" where
  "zoomEnd se st = syncDurationHoverFromPointer se (st\<lparr>zoomDraggingRef := False\<rparr>)"

text \<open>
  A run of the drawing effect (first render, resize, new data): \<open>kRef\<close> is set from the
  stored transform, whose scale it already holds, the stored transform is re-applied
  programmatically (start, zoom and end with no source event), and
  \<open>updateInteractivity\<close> runs once more.
\<close>

definition effectRun :: "interaction \<Rightarrow> interaction" where
  "effectRun st =
     updateInteractivity (kRef st) (zoomEnd None (zoomEvent (kRef st) None (zoomStart st)))"

subsection \<open>Events and their delivery\<close>

datatype event =
    OutlineEnter string
  | OutlineLeave
  | OutlineClick string
  | SegEnter string string
  | SegLeave string
  | SegClick string
  | MarkClick
  | CanvasClick
  | ZoomStart
  | Zoom real "string option option"
  | ZoomEnd "string option option"
  | EffectRun

fun handle :: "event \<Rightarrow> interaction \<Rightarrow> interaction" where
  "handle (OutlineEnter d) st = outlineMouseEnter d st"
| "handle OutlineLeave st = outlineMouseLeave st"
| "handle (OutlineClick d) st =
     (case outlineClick d st of (st', propagates) \<Rightarrow>
        if propagates then svgClick False True st' else st')"
| "handle (SegEnter segId parent) st = segMouseEnter segId parent st"
| "handle (SegLeave segId) st = segMouseLeave segId st"
| "handle (SegClick segId) st = svgClick True False (segClick segId st)"
| "handle MarkClick st = markClick st"
| "handle CanvasClick st = svgClick False False st"
| "handle ZoomStart st = zoomStart st"
| "handle (Zoom k se) st = zoomEvent k se st"
| "handle (ZoomEnd se) st = zoomEnd se st"
| "handle EffectRun st = effectRun st"

text \<open>
  \<open>updateInteractivity\<close> switches the \<open>pointer-events\<close> style of the layers with the zoom
  factor: outline rectangles accept the pointer only below the threshold, segment hit
  rectangles, author lines and text dots only at or above it. An enter or a click is
  delivered to a layer only while it accepts the pointer.
\<close>

fun delivered :: "event \<Rightarrow> interaction \<Rightarrow> bool" where
  "delivered (OutlineEnter d) st = (kRef st < ZOOM_THRESHOLD)"
| "delivered (OutlineClick d) st = (kRef st < ZOOM_THRESHOLD)"
| "delivered (SegEnter segId parent) st = (kRef st \<ge> ZOOM_THRESHOLD)"
| "delivered (SegClick segId) st = (kRef st \<ge> ZOOM_THRESHOLD)"
| "delivered MarkClick st = (kRef st \<ge> ZOOM_THRESHOLD)"
| "delivered e st = True"

fun isClick :: "event \<Rightarrow> bool" where
  "isClick (OutlineClick d) = True"
| "isClick (SegClick segId) = True"
| "isClick MarkClick = True"
| "isClick CanvasClick = True"
| "isClick e = False"

inductive reachable :: "interaction \<Rightarrow> bool" where
  reachable_init: "reachable initialInteraction"
| reachable_step: "reachable st \<Longrightarrow> delivered e st \<Longrightarrow> reachable (handle e st)"

text \<open>The invariant that carries mode exclusivity through every handler.\<close>

definition modeInv :: "interaction \<Rightarrow> bool" where
  "modeInv st \<longleftrightarrow>
     (prevZoomedInRef st \<longleftrightarrow> kRef st \<ge> ZOOM_THRESHOLD) \<and>
     (kRef st < ZOOM_THRESHOLD \<longrightarrow>
        activeSegIdRef st = None \<and> hoveredSegParentIdRef st = None) \<and>
     (kRef st \<ge> ZOOM_THRESHOLD \<longrightarrow>
        activeDurationIdRef st = None \<and> hoveredDurationIdRef st = None \<and>
        \<not> awaitingCloseClickRef st)"

section \<open>Collision-avoidance layout of the text dots\<close>

text \<open>
  The part of \<open>apply\<close> that positions the text dots. Pixel quantities are reals. The
  rescaled axes \<open>zx\<close> and \<open>zy\<close> come from the zoom library and are parameters here.
  Only the fields of an outline and of a text row that the layout reads are kept.
\<close>

record outline =
  o_id :: string
  o_start :: real
  o_end :: real
  o_y :: real
  o_h :: real

record textRow =
  t_id :: string
  t_durationId :: string
  t_when :: real
  t_y :: real

definition TEXT_BASE_R :: real where
  "TEXT_BASE_R = 7 / 10"

definition dotRadius :: "real \<Rightarrow> real" where
  "dotRadius k = TEXT_BASE_R * k"

text \<open>\<open>Math.round\<close> rounds half up, as \<^const>\<open>round\<close> does.\<close>

definition laneStepPad :: "real \<Rightarrow> real" where
  "laneStepPad k = max 1 (real_of_int (round (dotRadius k * (15 / 100))))"

definition minDX :: "real \<Rightarrow> real" where
  "minDX k = 2 * dotRadius k + laneStepPad k"

definition minDY :: "real \<Rightarrow> real" where
  "minDY k = 2 * dotRadius k + laneStepPad k"

definition laneStep :: "real \<Rightarrow> real" where
  "laneStep k = 2 * dotRadius k + laneStepPad k"

text \<open>
  An element of \<open>sorted\<close>: the row with its pixel position. An element of \<open>placed\<close>: the
  source stores \<open>cx\<close> and \<open>cy\<close>; the model also records the id of the row and the value
  of \<open>found\<close> at the end of its iteration, which the scan never reads.
\<close>

record sortedItem =
  it_d :: textRow
  it_cx :: real
  it_baseCy :: real

record placedDot =
  p_cx :: real
  p_cy :: real
  p_id :: string
  p_found :: bool

text \<open>The values fixed for one band in one frame.\<close>

record bandFrame =
  bandTop :: real
  bandBottom :: real
  f_r :: real
  f_minDX :: real
  f_minDY :: real
  f_laneStep :: real
  maxLanes :: int

definition frameOf :: "(real \<Rightarrow> real) \<Rightarrow> real \<Rightarrow> outline \<Rightarrow> bandFrame" where
  "frameOf zy k band =
     (let top = zy (o_y band);
          bottom = zy (o_y band + o_h band);
          bandHeight = bottom - top
      in \<lparr> bandTop = top, bandBottom = bottom, f_r = dotRadius k,
           f_minDX = minDX k, f_minDY = minDY k, f_laneStep = laneStep k,
           maxLanes = max 1 (\<lfloor>bandHeight / laneStep k\<rfloor>) \<rparr>)"

definition clampCy :: "bandFrame \<Rightarrow> real \<Rightarrow> real" where
  "clampCy G v = max (bandTop G + f_r G) (min (bandBottom G - f_r G) v)"

text \<open>
  The inner loop over \<open>placed\<close>, from its last element to its first; the list argument
  is \<open>placed\<close> reversed. The result is the final value of \<open>collides\<close>.
\<close>

fun scanPlaced :: "bandFrame \<Rightarrow> real \<Rightarrow> real \<Rightarrow> placedDot list \<Rightarrow> bool" where
  "scanPlaced G cx trialCy [] = False"
| "scanPlaced G cx trialCy (p # ps) =
     (if cx - p_cx p > f_minDX G then False
      else if \<bar>cx - p_cx p\<bar> < f_minDX G \<and> \<bar>trialCy - p_cy p\<bar> < f_minDY G then True
      else scanPlaced G cx trialCy ps)"

definition collides :: "bandFrame \<Rightarrow> real \<Rightarrow> real \<Rightarrow> placedDot list \<Rightarrow> bool" where
  "collides G cx trialCy placed = scanPlaced G cx trialCy (rev placed)"

text \<open>The offsets \<open>0, +step, -step, +2 step, -2 step, ...\<close> for \<open>i\<close> below \<open>maxLanes\<close>.\<close>

definition laneOffsets :: "bandFrame \<Rightarrow> real list" where
  "laneOffsets G =
     concat (map (\<lambda>i. if i = 0 then [0]
                       else [real i * f_laneStep G, - real i * f_laneStep G])
                 [0 ..< nat (maxLanes G)])"

text \<open>The loop over the offsets: the first trial position that does not collide.\<close>

fun searchLanes :: "bandFrame \<Rightarrow> sortedItem \<Rightarrow> placedDot list \<Rightarrow> real list \<Rightarrow> real option" where
  "searchLanes G it placed [] = None"
| "searchLanes G it placed (off # offs) =
     (let trialCy = clampCy G (it_baseCy it + off)
      in if \<not> collides G (it_cx it) trialCy placed then Some trialCy
         else searchLanes G it placed offs)"

text \<open>One iteration of the loop over \<open>sorted\<close>: the pair \<open>(chosenCy, found)\<close>.\<close>

definition chooseCy :: "bandFrame \<Rightarrow> placedDot list \<Rightarrow> sortedItem \<Rightarrow> real \<times> bool" where
  "chooseCy G placed it =
     (case searchLanes G it placed (laneOffsets G) of
        Some trialCy \<Rightarrow> (trialCy, True)
      | None \<Rightarrow> (clampCy G (it_baseCy it), False))"

fun placeLoop :: "bandFrame \<Rightarrow> sortedItem list \<Rightarrow> placedDot list \<times> (string \<rightharpoonup> real)
                   \<Rightarrow> placedDot list \<times> (string \<rightharpoonup> real)" where
  "placeLoop G [] st = st"
| "placeLoop G (it # its) (placed, adjustedCy) =
     (case chooseCy G placed it of (chosenCy, found) \<Rightarrow>
        placeLoop G its
          (placed @ [\<lparr> p_cx = it_cx it, p_cy = chosenCy,
                       p_id = t_id (it_d it), p_found = found \<rparr>],
           adjustedCy(t_id (it_d it) \<mapsto> chosenCy)))"

definition sortedItems :: "(real \<Rightarrow> real) \<Rightarrow> (real \<Rightarrow> real) \<Rightarrow> textRow list \<Rightarrow> sortedItem list" where
  "sortedItems zx zy items =
     sort_key it_cx
       (map (\<lambda>d. \<lparr> it_d = d, it_cx = zx (toAstronomical (t_when d)), it_baseCy = zy (t_y d) \<rparr>)
            items)"

text \<open>
  The body of the loop over the bands, for a band found in \<open>outlineById\<close>: the final
  \<open>placed\<close> list of the band and \<open>adjustedCy\<close> after it.
\<close>

definition layoutBand :: "(real \<Rightarrow> real) \<Rightarrow> (real \<Rightarrow> real) \<Rightarrow> real \<Rightarrow> outline \<Rightarrow> textRow list
                          \<Rightarrow> (string \<rightharpoonup> real) \<Rightarrow> placedDot list \<times> (string \<rightharpoonup> real)" where
  "layoutBand zx zy k band items adjustedCy =
     placeLoop (frameOf zy k band) (sortedItems zx zy items) ([], adjustedCy)"

text \<open>The ids of the marks of a band whose lane search found no free offset.\<close>

definition exhaustedIds :: "placedDot list \<Rightarrow> string set" where
  "exhaustedIds placed = set (map p_id (filter (\<lambda>p. \<not> p_found p) placed))"

text \<open>The separation the lane search aims at, between two placed dots.\<close>

definition separated :: "bandFrame \<Rightarrow> placedDot \<Rightarrow> placedDot \<Rightarrow> bool" where
  "separated G p q \<longleftrightarrow>
     \<bar>p_cx p - p_cx q\<bar> \<ge> f_minDX G \<or> \<bar>p_cy p - p_cy q\<bar> \<ge> f_minDY G"

text \<open>The relation that holds from an earlier to a later element of \<open>placed\<close>.\<close>

definition laterFoundOrSeparated :: "bandFrame \<Rightarrow> placedDot \<Rightarrow> placedDot \<Rightarrow> bool" where
  "laterFoundOrSeparated G p q \<longleftrightarrow> separated G p q \<or> \<not> p_found q"

text \<open>The padded vertical extent of a band, as a predicate on a centre.\<close>

definition inPaddedExtent :: "bandFrame \<Rightarrow> real \<Rightarrow> bool" where
  "inPaddedExtent G cy =
     (if bandBottom G - bandTop G \<ge> 2 * f_r G
      then bandTop G + f_r G \<le> cy \<and> cy \<le> bandBottom G - f_r G
      else cy = bandTop G + f_r G)"

text \<open>
  A band two pixels high with two texts of the same date and the same base height, under
  identity axes.
\<close>

definition narrowBand :: outline where
  "narrowBand = \<lparr> o_id = ''b'', o_start = 0, o_end = 200, o_y = 0, o_h = 2 \<rparr>"

definition twinTexts :: "textRow list" where
  "twinTexts =
     [\<lparr> t_id = ''t1'', t_durationId = ''b'', t_when = 100, t_y = 1 \<rparr>,
      \<lparr> t_id = ''t2'', t_durationId = ''b'', t_when = 100, t_y = 1 \<rparr>]"

definition twinLayout :: "placedDot list \<times> (string \<rightharpoonup> real)" where
  "twinLayout = layoutBand id id 1 narrowBand twinTexts Map.empty"

text \<open>A band twenty pixels high with three texts of the same date and base height.\<close>

definition tallBand :: outline where
  "tallBand = \<lparr> o_id = ''b'', o_start = 0, o_end = 200, o_y = 0, o_h = 20 \<rparr>"

definition tripleTexts :: "textRow list" where
  "tripleTexts =
     [\<lparr> t_id = ''t1'', t_durationId = ''b'', t_when = 100, t_y = 10 \<rparr>,
      \<lparr> t_id = ''t2'', t_durationId = ''b'', t_when = 100, t_y = 10 \<rparr>,
      \<lparr> t_id = ''t3'', t_durationId = ''b'', t_when = 100, t_y = 10 \<rparr>]"

text \<open>Twenty texts of one date, with ids \<open>a\<close>, \<open>aa\<close>, \<open>aaa\<close> and so on.\<close>

definition twentyTexts :: "textRow list" where
  "twentyTexts =
     map (\<lambda>n. \<lparr> t_id = replicate (Suc n) (CHR ''a''), t_durationId = ''b'',
                 t_when = 100, t_y = 10 \<rparr>) [0 ..< 20]"

text \<open>Two texts of one title and date, by different authors: one id, two base heights.\<close>

definition hymnTexts :: "textRow list" where
  "hymnTexts =
     [\<lparr> t_id = ''b__text__Hymn__100'', t_durationId = ''b'', t_when = 100, t_y = 10 \<rparr>,
      \<lparr> t_id = ''b__text__Hymn__100'', t_durationId = ''b'', t_when = 100, t_y = 11 \<rparr>]"

definition hymnLayout :: "placedDot list \<times> (string \<rightharpoonup> real)" where
  "hymnLayout = layoutBand id id 1 tallBand hymnTexts Map.empty"

section \<open>Tooltip anchoring\<close>

text \<open>
  The tooltip is positioned inside the wrapper element; \<open>wrapRect\<close> and \<open>svgRect\<close> are
  bounding client rectangles, \<open>tw\<close> and \<open>th\<close> the measured size of the tooltip node.
  The result is the \<open>left\<close> and \<open>top\<close> style and the \<open>below\<close> class of the tooltip.
\<close>

record clientRect =
  r_left :: real
  r_top :: real
  r_width :: real
  r_height :: real

record tipPlacement =
  tip_left :: real
  tip_top :: real
  tip_below :: bool

text \<open>\<open>showTip(sel, html, clientX, clientY, accent)\<close>: above the given point if possible.\<close>

definition showTip :: "real \<Rightarrow> real \<Rightarrow> clientRect \<Rightarrow> real \<Rightarrow> real \<Rightarrow> tipPlacement" where
  "showTip clientX clientY wrapRect tw th =
     (let pad = 6;
          x = clientX - r_left wrapRect - tw / 2;
          y = clientY - r_top wrapRect - th - pad;
          below = (y < 0);
          y' = (if y < 0 then clientY - r_top wrapRect + pad else y);
          maxX = r_width wrapRect - tw - 4
      in \<lparr> tip_left = max 4 (min x maxX), tip_top = y', tip_below = below \<rparr>)"

record segmentRow =
  s_id :: string
  s_parentId :: string
  s_start :: real
  s_end :: real
  s_y :: real
  s_h :: real

record anchorPx =
  an_left :: real
  an_right :: real
  an_xMid :: real
  an_yTop :: real
  an_hPix :: real

text \<open>
  The refs \<open>zxRef\<close> and \<open>zyRef\<close> hold the latest rescaled axes, or nothing before the
  first call of \<open>apply\<close>; the anchor helpers then return \<open>null\<close>.
\<close>

definition anchorOf :: "(real \<Rightarrow> real) option \<Rightarrow> (real \<Rightarrow> real) option
                        \<Rightarrow> real \<Rightarrow> real \<Rightarrow> real \<Rightarrow> real \<Rightarrow> anchorPx option" where
  "anchorOf zxRef zyRef start end' y h =
     (case (zxRef, zyRef) of
        (Some zx, Some zy) \<Rightarrow>
          (let x0 = zx (toAstronomical start);
               x1 = zx (toAstronomical end');
               yTop = zy y;
               hPix = zy (y + h) - zy y;
               left = min x0 x1;
               right = max x0 x1
           in Some \<lparr> an_left = left, an_right = right, an_xMid = (left + right) / 2,
                     an_yTop = yTop, an_hPix = hPix \<rparr>)
      | _ \<Rightarrow> None)"

definition getSegmentAnchorPx :: "(real \<Rightarrow> real) option \<Rightarrow> (real \<Rightarrow> real) option
                                  \<Rightarrow> segmentRow \<Rightarrow> anchorPx option" where
  "getSegmentAnchorPx zxRef zyRef seg =
     anchorOf zxRef zyRef (s_start seg) (s_end seg) (s_y seg) (s_h seg)"

definition getDurationAnchorPx :: "(real \<Rightarrow> real) option \<Rightarrow> (real \<Rightarrow> real) option
                                   \<Rightarrow> outline \<Rightarrow> anchorPx option" where
  "getDurationAnchorPx zxRef zyRef out =
     anchorOf zxRef zyRef (o_start out) (o_end out) (o_y out) (o_h out)"

text \<open>
  The placement shared, line for line, by \<open>showSegAnchored\<close> and
  \<open>showDurationAnchored\<close>: below the element, flipped above if it would overflow.
\<close>

definition placeAnchored :: "anchorPx \<Rightarrow> clientRect \<Rightarrow> real \<Rightarrow> real \<Rightarrow> tipPlacement" where
  "placeAnchored anchor wrapRect tw th =
     (let pad = 8;
          x = an_xMid anchor - tw / 2;
          y = an_yTop anchor + an_hPix anchor + pad;
          flip = (y + th > r_height wrapRect);
          y' = (if flip then an_yTop anchor - th - pad else y);
          maxX = r_width wrapRect - tw - 4
      in \<lparr> tip_left = max 4 (min x maxX), tip_top = y', tip_below = (\<not> flip) \<rparr>)"

definition showSegAnchored :: "(real \<Rightarrow> real) option \<Rightarrow> (real \<Rightarrow> real) option \<Rightarrow> segmentRow
                               \<Rightarrow> clientRect \<Rightarrow> real \<Rightarrow> real \<Rightarrow> tipPlacement option" where
  "showSegAnchored zxRef zyRef seg wrapRect tw th =
     (case getSegmentAnchorPx zxRef zyRef seg of
        None \<Rightarrow> None
      | Some anchor \<Rightarrow> Some (placeAnchored anchor wrapRect tw th))"

definition showDurationAnchored :: "(real \<Rightarrow> real) option \<Rightarrow> (real \<Rightarrow> real) option \<Rightarrow> outline
                                    \<Rightarrow> clientRect \<Rightarrow> real \<Rightarrow> real \<Rightarrow> tipPlacement option" where
  "showDurationAnchored zxRef zyRef out wrapRect tw th =
     (case getDurationAnchorPx zxRef zyRef out of
        None \<Rightarrow> None
      | Some anchor \<Rightarrow> Some (placeAnchored anchor wrapRect tw th))"

text \<open>The tooltip rectangle lies inside the wrapper, the viewport of the chart.\<close>

definition insideViewport :: "clientRect \<Rightarrow> real \<Rightarrow> real \<Rightarrow> tipPlacement \<Rightarrow> bool" where
  "insideViewport wrapRect tw th pos \<longleftrightarrow>
     0 \<le> tip_left pos \<and> tip_left pos + tw \<le> r_width wrapRect \<and>
     0 \<le> tip_top pos \<and> tip_top pos + th \<le> r_height wrapRect"

subsection \<open>Hover tooltips of author lines and text dots\<close>

record authorRow =
  a_id :: string
  a_durationId :: string
  a_name :: string
  a_start :: real
  a_end :: real
  a_y :: real

record clientPoint =
  pt_x :: real
  pt_y :: real

record mouseEvent =
  clientX :: real
  clientY :: real

definition marginLeft :: real where
  "marginLeft = 0"

definition marginTop :: real where
  "marginTop = 8"

definition authorAnchorClient :: "(real \<Rightarrow> real) option \<Rightarrow> (real \<Rightarrow> real) option \<Rightarrow> clientRect
                                  \<Rightarrow> authorRow \<Rightarrow> clientPoint option" where
  "authorAnchorClient zxRef zyRef svgRect d =
     (case (zxRef, zyRef) of
        (Some zx, Some zy) \<Rightarrow>
          (let x0 = zx (toAstronomical (a_start d));
               x1 = zx (toAstronomical (a_end d));
               xMid = (min x0 x1 + max x0 x1) / 2;
               yLine = zy (a_y d)
           in Some \<lparr> pt_x = r_left svgRect + marginLeft + xMid,
                     pt_y = r_top svgRect + marginTop + yLine \<rparr>)
      | _ \<Rightarrow> None)"

text \<open>
  \<open>textAnchorClient(el, d)\<close>: \<open>cyAttr\<close> is the \<open>cy\<close> attribute of the element when an
  element is passed, as the hover handlers do, and \<open>zy(d.y)\<close> otherwise.
\<close>

definition textAnchorClient :: "(real \<Rightarrow> real) option \<Rightarrow> (real \<Rightarrow> real) option \<Rightarrow> clientRect
                                \<Rightarrow> real option \<Rightarrow> textRow \<Rightarrow> clientPoint option" where
  "textAnchorClient zxRef zyRef svgRect el d =
     (case (zxRef, zyRef) of
        (Some zx, Some zy) \<Rightarrow>
          (let cx = zx (toAstronomical (t_when d));
               cyAttr = (case el of Some cy \<Rightarrow> cy | None \<Rightarrow> zy (t_y d))
           in Some \<lparr> pt_x = r_left svgRect + marginLeft + cx,
                     pt_y = r_top svgRect + marginTop + cyAttr \<rparr>)
      | _ \<Rightarrow> None)"

text \<open>
  The tooltip placement made by the \<open>mouseenter\<close> and by the \<open>mousemove\<close> handler of an
  author line, and of a text dot; both handlers receive the event
  as \<open>_ev\<close> and do not read it. Nothing is
  shown when the anchor is \<open>null\<close>.
\<close>

definition authorHoverTip :: "(real \<Rightarrow> real) option \<Rightarrow> (real \<Rightarrow> real) option \<Rightarrow> clientRect
     \<Rightarrow> clientRect \<Rightarrow> real \<Rightarrow> real \<Rightarrow> mouseEvent \<Rightarrow> authorRow \<Rightarrow> tipPlacement option" where
  "authorHoverTip zxRef zyRef svgRect wrapRect tw th ev d =
     (case authorAnchorClient zxRef zyRef svgRect d of
        None \<Rightarrow> None
      | Some a \<Rightarrow> Some (showTip (pt_x a) (pt_y a) wrapRect tw th))"

definition textHoverTip :: "(real \<Rightarrow> real) option \<Rightarrow> (real \<Rightarrow> real) option \<Rightarrow> clientRect
     \<Rightarrow> clientRect \<Rightarrow> real \<Rightarrow> real \<Rightarrow> mouseEvent \<Rightarrow> real \<Rightarrow> textRow \<Rightarrow> tipPlacement option" where
  "textHoverTip zxRef zyRef svgRect wrapRect tw th ev cyAttr d =
     (case textAnchorClient zxRef zyRef svgRect (Some cyAttr) d of
        None \<Rightarrow> None
      | Some a \<Rightarrow> Some (showTip (pt_x a) (pt_y a) wrapRect tw th))"

text \<open>Sample geometry: an 800 by 400 wrapper at the origin and a 200 by 60 tooltip.\<close>

definition sampleWrap :: clientRect where
  "sampleWrap = \<lparr> r_left = 0, r_top = 0, r_width = 800, r_height = 400 \<rparr>"

text \<open>A segment that a zoomed vertical axis renders taller than the wrapper.\<close>

definition tallSegment :: segmentRow where
  "tallSegment = \<lparr> s_id = ''b__seg_0'', s_parentId = ''b'', s_start = 100, s_end = 300,
                    s_y = 45, s_h = 24 \<rparr>"

definition zoomedY :: "real \<Rightarrow> real" where
  "zoomedY v = 22 * v - 1000"

definition sampleSegment :: segmentRow where
  "sampleSegment = \<lparr> s_id = ''b__seg_1'', s_parentId = ''b'', s_start = 100, s_end = 300,
                      s_y = 40, s_h = 24 \<rparr>"

definition sampleAuthor :: authorRow where
  "sampleAuthor = \<lparr> a_id = ''b__author__x'', a_durationId = ''b'', a_name = ''x'',
                     a_start = 100, a_end = 300, a_y = 50 \<rparr>"

text \<open>A wrapper exactly as wide as a 200 pixel tooltip.\<close>

definition tightWrap :: clientRect where
  "tightWrap = \<lparr> r_left = 0, r_top = 0, r_width = 200, r_height = 400 \<rparr>"

text \<open>The placement the hover tooltip would have if it were anchored at the pointer.\<close>

definition pointerAnchoredTip :: "clientRect \<Rightarrow> real \<Rightarrow> real \<Rightarrow> mouseEvent \<Rightarrow> tipPlacement" where
  "pointerAnchoredTip wrapRect tw th ev = showTip (clientX ev) (clientY ev) wrapRect tw th"

text \<open>
  What the geometry-anchored functions establish for a placement \<open>pos\<close> made from an
  anchor \<open>a\<close>: the clamped left edge, the side chosen, and containment when the element is
  vertically inside the wrapper and the tooltip fits below or above it.
\<close>

definition clampedAndFlipped :: "clientRect \<Rightarrow> real \<Rightarrow> real \<Rightarrow> anchorPx \<Rightarrow> tipPlacement \<Rightarrow> bool" where
  "clampedAndFlipped wrapRect tw th a pos \<longleftrightarrow>
     pos = placeAnchored a wrapRect tw th
     \<and> 4 \<le> tip_left pos \<and> tip_left pos \<le> r_width wrapRect - tw - 4
     \<and> (tip_below pos \<longleftrightarrow> an_yTop a + an_hPix a + 8 + th \<le> r_height wrapRect)
     \<and> tip_top pos = (if tip_below pos then an_yTop a + an_hPix a + 8 else an_yTop a - th - 8)
     \<and> (0 \<le> an_yTop a \<and> 0 \<le> an_hPix a \<and> an_yTop a + an_hPix a \<le> r_height wrapRect
        \<and> (an_yTop a + an_hPix a + 8 + th \<le> r_height wrapRect \<or> th + 8 \<le> an_yTop a)
        \<longrightarrow> insideViewport wrapRect tw th pos)"

section \<open>Entity geometry: bands and segments from the duration records\<close>

text \<open>
  A record of \<open>durations.json\<close>. A field that is absent or \<open>null\<close> is \<open>None\<close>;
  \<open>d_segments\<close> is \<open>None\<close> when \<open>segments\<close> is not an array. Names, colours, labels and
  notes are display strings and are left out.
\<close>

record rawSegment =
  rs_start :: real
  rs_end :: real
  rs_yRel :: "real option"
  rs_y :: "real option"
  rs_hRel :: "real option"
  rs_height :: "real option"

record rawDuration =
  d_id :: string
  d_segments :: "rawSegment list option"
  d_start :: "real option"
  d_end :: "real option"
  d_yRel :: "real option"
  d_y :: "real option"
  d_hRel :: "real option"
  d_height :: "real option"

definition DEFAULT_BAR_PX :: real where
  "DEFAULT_BAR_PX = 24"

text \<open>The decimal digits of an array index, as a template literal prints it.\<close>

fun decimal :: "nat \<Rightarrow> string" where
  "decimal n =
     (if n < 10 then [''0123456789'' ! n]
      else decimal (n div 10) @ [''0123456789'' ! (n mod 10)])"

declare decimal.simps [simp del]

text \<open>
  The interactive timeline resolves the vertical slot of a band with the same two
  expressions in \<open>outlines\<close> and in \<open>segments\<close>:
  \<^verbatim>\<open>d.yRel != null ? d.yRel * innerHeight : d.y != null ? d.y : 0\<close> and
  \<^verbatim>\<open>d.hRel != null ? d.hRel * innerHeight : d.height != null ? d.height : DEFAULT_BAR_PX\<close>.
\<close>

definition bandY :: "real \<Rightarrow> rawDuration \<Rightarrow> real" where
  "bandY innerHeight d =
     (case d_yRel d of Some yRel \<Rightarrow> yRel * innerHeight
      | None \<Rightarrow> (case d_y d of Some y \<Rightarrow> y | None \<Rightarrow> 0))"

definition bandH :: "real \<Rightarrow> rawDuration \<Rightarrow> real" where
  "bandH innerHeight d =
     (case d_hRel d of Some hRel \<Rightarrow> hRel * innerHeight
      | None \<Rightarrow> (case d_height d of Some h \<Rightarrow> h | None \<Rightarrow> DEFAULT_BAR_PX))"

text \<open>The \<open>segments\<close> memo of the interactive timeline: one hit rectangle per segment.\<close>

definition segmentsOf :: "real \<Rightarrow> rawDuration \<Rightarrow> segmentRow list" where
  "segmentsOf innerHeight d =
     (case d_segments d of
        None \<Rightarrow> []
      | Some segs \<Rightarrow>
          (let y = bandY innerHeight d;
               h = bandH innerHeight d
           in map (\<lambda>(i, s). \<lparr> s_id = d_id d @ ''__seg_'' @ decimal i, s_parentId = d_id d,
                               s_start = rs_start s, s_end = rs_end s, s_y = y, s_h = h \<rparr>)
                  (enumerate 0 segs)))"

definition segments :: "real \<Rightarrow> rawDuration list \<Rightarrow> segmentRow list" where
  "segments innerHeight durations = concat (map (segmentsOf innerHeight) durations)"

text \<open>
  The \<open>compositeRows\<close> memo of the plain timeline: the vertical slot of a segment is
  taken from the segment, then from its group, then from a default.
\<close>

record compositeSeg =
  cs_id :: string
  cs_start :: real
  cs_end :: real
  cs_y :: real
  cs_h :: real

record compositeRow =
  cr_id :: string
  cr_segments :: "compositeSeg list"

definition compositeSegY :: "real \<Rightarrow> rawDuration \<Rightarrow> nat \<Rightarrow> rawSegment \<Rightarrow> real" where
  "compositeSegY innerHeight grp i s =
     (case rs_yRel s of Some yRel \<Rightarrow> yRel * innerHeight
      | None \<Rightarrow> (case rs_y s of Some y \<Rightarrow> y
      | None \<Rightarrow> (case d_yRel grp of Some yRel \<Rightarrow> yRel * innerHeight
      | None \<Rightarrow> (case d_y grp of Some y \<Rightarrow> y
      | None \<Rightarrow> real i * 36))))"

definition compositeSegH :: "real \<Rightarrow> rawDuration \<Rightarrow> rawSegment \<Rightarrow> real" where
  "compositeSegH innerHeight grp s =
     (case rs_hRel s of Some hRel \<Rightarrow> hRel * innerHeight
      | None \<Rightarrow> (case rs_height s of Some h \<Rightarrow> h
      | None \<Rightarrow> (case d_hRel grp of Some hRel \<Rightarrow> hRel * innerHeight
      | None \<Rightarrow> (case d_height grp of Some h \<Rightarrow> h
      | None \<Rightarrow> DEFAULT_BAR_PX))))"

definition isComposite :: "rawDuration \<Rightarrow> bool" where
  "isComposite d = (case d_segments d of None \<Rightarrow> False | Some segs \<Rightarrow> length segs \<noteq> 0)"

definition compositeRowOf :: "real \<Rightarrow> rawDuration \<Rightarrow> compositeRow" where
  "compositeRowOf innerHeight grp =
     \<lparr> cr_id = d_id grp,
       cr_segments =
         map (\<lambda>(i, s). \<lparr> cs_id = d_id grp @ ''__seg_'' @ decimal i,
                           cs_start = rs_start s, cs_end = rs_end s,
                           cs_y = compositeSegY innerHeight grp i s,
                           cs_h = compositeSegH innerHeight grp s \<rparr>)
             (enumerate 0 (case d_segments grp of None \<Rightarrow> [] | Some segs \<Rightarrow> segs)) \<rparr>"

definition compositeRows :: "real \<Rightarrow> rawDuration list \<Rightarrow> compositeRow list" where
  "compositeRows innerHeight data' = map (compositeRowOf innerHeight) (filter isComposite data')"

text \<open>A band at \<open>y = 10\<close>, 24 high, whose only segment asks for \<open>y = 50\<close> and height 5.\<close>

definition overridingSegment :: rawSegment where
  "overridingSegment = \<lparr> rs_start = - 3100, rs_end = - 2686, rs_yRel = None, rs_y = Some 50,
                          rs_hRel = None, rs_height = Some 5 \<rparr>"

definition overriddenBand :: rawDuration where
  "overriddenBand = \<lparr> d_id = ''egypt'', d_segments = Some [overridingSegment],
                       d_start = None, d_end = None, d_yRel = None, d_y = Some 10,
                       d_hRel = None, d_height = Some 24 \<rparr>"

section \<open>Author and text rows from the discovered datasets\<close>

text \<open>
  The values a field of a JSON record can hold, with \<open>JUndefined\<close> for an absent field.
  An array or object is represented by the string it converts to. \<open>Number(v)\<close> follows
  the language: \<open>undefined\<close> gives \<open>NaN\<close>, \<open>null\<close> gives 0, booleans give 0 and 1, and a
  string is parsed by the host, a parameter here.
\<close>

datatype jsnum = Fin real | NaN | PosInfinity | NegInfinity

datatype jsval = JUndefined | JNull | JBool bool | JNum jsnum | JStr string | JObj string

definition toNumber :: "(string \<Rightarrow> jsnum) \<Rightarrow> jsval \<Rightarrow> jsnum" where
  "toNumber stringToNumber v =
     (case v of
        JUndefined \<Rightarrow> NaN
      | JNull \<Rightarrow> Fin 0
      | JBool b \<Rightarrow> Fin (if b then 1 else 0)
      | JNum n \<Rightarrow> n
      | JStr str \<Rightarrow> stringToNumber str
      | JObj str \<Rightarrow> stringToNumber str)"

definition isFinite :: "jsnum \<Rightarrow> bool" where
  "isFinite n = (case n of Fin x \<Rightarrow> True | _ \<Rightarrow> False)"

text \<open>Whether a field holds a finite number, before any conversion.\<close>

definition holdsFiniteNumber :: "jsval \<Rightarrow> bool" where
  "holdsFiniteNumber v = (case v of JNum (Fin x) \<Rightarrow> True | _ \<Rightarrow> False)"

definition getTextDate :: "(string \<Rightarrow> jsnum) \<Rightarrow> jsval \<Rightarrow> jsnum" where
  "getTextDate stringToNumber datavizDate =
     (let v = toNumber stringToNumber datavizDate in if isFinite v then v else NaN)"

text \<open>
  A record of a dataset file is a JSON object, a map from field names to values, or
  \<open>null\<close> (\<open>None\<close>); an element that is a number, a string or a boolean reads like an
  object without fields. Reading a field of \<open>null\<close> raises a \<open>TypeError\<close>, and so does
  \<open>.trim()\<close> on a value that is not a string.
\<close>

datatype error = TypeError

type_synonym jsobject = "string \<rightharpoonup> jsval"

definition fieldOf :: "jsobject \<Rightarrow> string \<Rightarrow> jsval" where
  "fieldOf a key = (case a key of None \<Rightarrow> JUndefined | Some v \<Rightarrow> v)"

definition truthyValue :: "jsval \<Rightarrow> bool" where
  "truthyValue v =
     (case v of
        JUndefined \<Rightarrow> False
      | JNull \<Rightarrow> False
      | JBool b \<Rightarrow> b
      | JNum n \<Rightarrow> (case n of Fin x \<Rightarrow> x \<noteq> 0 | NaN \<Rightarrow> False | _ \<Rightarrow> True)
      | JStr str \<Rightarrow> str \<noteq> []
      | JObj str \<Rightarrow> True)"

text \<open>\<open>a || b\<close>.\<close>

definition orElse :: "jsval \<Rightarrow> jsval \<Rightarrow> jsval" where
  "orElse a b = (if truthyValue a then a else b)"

definition isSpace :: "char \<Rightarrow> bool" where
  "isSpace c = (of_char c \<in> {9, 10, 11, 12, 13, 32, 160 :: nat})"

definition trimSpaces :: "string \<Rightarrow> string" where
  "trimSpaces str = rev (dropWhile isSpace (rev (dropWhile isSpace str)))"

text \<open>\<open>(v || "").trim()\<close>.\<close>

definition trimmed :: "jsval \<Rightarrow> error + string" where
  "trimmed v =
     (case orElse v (JStr []) of
        JStr str \<Rightarrow> Inr (trimSpaces str)
      | _ \<Rightarrow> Inl TypeError)"

text \<open>The \<open>.trim()\<close> statements that open a loop body, in order, up to the first error.\<close>

fun trimAll :: "jsval list \<Rightarrow> error + string list" where
  "trimAll [] = Inr []"
| "trimAll (v # vs) =
     (case trimmed v of
        Inl e \<Rightarrow> Inl e
      | Inr str \<Rightarrow> (case trimAll vs of Inl e \<Rightarrow> Inl e | Inr strs \<Rightarrow> Inr (str # strs)))"

definition authorStrings :: "jsobject \<Rightarrow> jsval list" where
  "authorStrings a =
     [orElse (fieldOf a ''Author'') (fieldOf a ''author''), fieldOf a ''D.O.B.'', fieldOf a ''D.O.D.'',
      fieldOf a ''Socio-political Tags'', fieldOf a ''Symbolic System Tags'',
      fieldOf a ''Jungian Archetypes Tags'', fieldOf a ''Category'', fieldOf a ''Short Description'']"

definition textStrings :: "jsobject \<Rightarrow> jsval list" where
  "textStrings t =
     [fieldOf t ''Name'', fieldOf t ''Author'', fieldOf t ''Approx. Date'', fieldOf t ''Metaphysical Tags'',
      fieldOf t ''Arts and Sciences Tags'', fieldOf t ''Access Level'', fieldOf t ''Short Description'',
      fieldOf t ''Jungian Archetypes Tags'', fieldOf t ''Neumann Stages Tags'',
      fieldOf t ''Original Geographical Location'', fieldOf t ''Original Language'',
      fieldOf t ''Comtean framework'', fieldOf t ''Category'', fieldOf t ''Socio-political Tags'',
      fieldOf t ''Literary Forms Tags'', fieldOf t ''Literary Content Tags'',
      fieldOf t ''Symbolic System Tags'']"

text \<open>
  Of a pushed row the model keeps \<open>durationId\<close> and the years, which decide whether the
  row stays visible. The id, the hashed \<open>y\<close>, the colour and the display strings are
  computed from the trimmed strings and the finite years and raise nothing.
\<close>

record dataset =
  ds_folder :: string
  ds_durationId :: string
  ds_authors :: "jsobject option list"
  ds_texts :: "jsobject option list"

record authorSpan =
  as_durationId :: string
  as_start :: real
  as_end :: real

record textInstant =
  ti_durationId :: string
  ti_when :: real

text \<open>
  \<open>useDiscoveredDatasets\<close>. A module is the folder matched in its path (\<open>None\<close> when the
  path does not match) with the records of the file. The folders are visited in the order
  of their first occurrence, author modules first; a missing or empty folder is skipped.
\<close>

definition recordsOf :: "string \<Rightarrow> (string option \<times> 'a list) list \<Rightarrow> 'a list" where
  "recordsOf folder modules =
     concat (map snd (filter (\<lambda>m. fst m = Some folder) modules))"

definition useDiscoveredDatasets ::
    "(string option \<times> jsobject option list) list \<Rightarrow> (string option \<times> jsobject option list) list
     \<Rightarrow> dataset list" where
  "useDiscoveredDatasets authorModules textModules =
     (let folders = rev (remdups (rev (map fst authorModules @ map fst textModules)))
      in concat (map (\<lambda>f. case f of
                           None \<Rightarrow> []
                         | Some folder \<Rightarrow>
                             if folder = [] then []
                             else [\<lparr> ds_folder = folder,
                                     ds_durationId = folder @ ''-composite'',
                                     ds_authors = recordsOf folder authorModules,
                                     ds_texts = recordsOf folder textModules \<rparr>])
                     folders))"

text \<open>
  The \<open>outlines\<close> memo: bands with at least one segment, or with both bounds. The bounds
  of a segmented band are the least start and the greatest end of its segments.
\<close>

definition keepsDuration :: "rawDuration \<Rightarrow> bool" where
  "keepsDuration d =
     (case d_segments d of
        Some segs \<Rightarrow> length segs > 0
      | None \<Rightarrow> d_start d \<noteq> None \<and> d_end d \<noteq> None)"

definition outlineOf :: "real \<Rightarrow> rawDuration \<Rightarrow> outline" where
  "outlineOf innerHeight d =
     (let (start, end') =
            (case d_segments d of
               Some (s # segs) \<Rightarrow>
                 (fold min (map rs_start segs) (rs_start s),
                  fold max (map rs_end segs) (rs_end s))
             | _ \<Rightarrow> (case (d_start d, d_end d) of
                        (Some a, Some b) \<Rightarrow> (a, b)
                      | _ \<Rightarrow> (0, 0)))
      in \<lparr> o_id = d_id d, o_start = start, o_end = end',
           o_y = bandY innerHeight d, o_h = bandH innerHeight d \<rparr>)"

definition outlines :: "real \<Rightarrow> rawDuration list \<Rightarrow> outline list" where
  "outlines innerHeight durations = map (outlineOf innerHeight) (filter keepsDuration durations)"

text \<open>\<open>new Map(outlines.map((o) => [o.id, o]))\<close>: a later entry replaces an earlier one.\<close>

definition outlinesById :: "outline list \<Rightarrow> (string \<rightharpoonup> outline)" where
  "outlinesById os = map_of (rev (map (\<lambda>b. (o_id b, b)) os))"

text \<open>
  The body of the loop over the authors, and over the texts, of a dataset: an error when
  a statement raises, else \<open>None\<close> for \<open>continue\<close> and \<open>Some\<close> for the row pushed. The
  years of a pushed row are finite.
\<close>

fun finiteValue :: "jsnum \<Rightarrow> real" where
  "finiteValue (Fin x) = x"
| "finiteValue n = 0"

definition authorRowOf ::
    "(string \<Rightarrow> jsnum) \<Rightarrow> string \<Rightarrow> jsobject option \<Rightarrow> error + authorSpan option" where
  "authorRowOf stringToNumber durationId rec =
     (case rec of
        None \<Rightarrow> Inl TypeError
      | Some a \<Rightarrow>
          (case trimAll (authorStrings a) of
             Inl e \<Rightarrow> Inl e
           | Inr strs \<Rightarrow>
               (let birthNum = toNumber stringToNumber (fieldOf a ''Dataviz_birth'');
                    deathNum = toNumber stringToNumber (fieldOf a ''Dataviz_death'')
                in if \<not> isFinite birthNum \<or> \<not> isFinite deathNum then Inr None
                   else Inr (Some \<lparr> as_durationId = durationId,
                                     as_start = finiteValue birthNum,
                                     as_end = finiteValue deathNum \<rparr>))))"

definition textRowOf ::
    "(string \<Rightarrow> jsnum) \<Rightarrow> string \<Rightarrow> jsobject option \<Rightarrow> error + textInstant option" where
  "textRowOf stringToNumber durationId rec =
     (case rec of
        None \<Rightarrow> Inl TypeError
      | Some t \<Rightarrow>
          (case trimAll (textStrings t) of
             Inl e \<Rightarrow> Inl e
           | Inr strs \<Rightarrow>
               (let when' = getTextDate stringToNumber (fieldOf t ''Dataviz date'')
                in if \<not> isFinite when' then Inr None
                   else Inr (Some \<lparr> ti_durationId = durationId,
                                     ti_when = finiteValue when' \<rparr>))))"

text \<open>A loop over records that pushes the rows and stops at the first error.\<close>

fun pushAll :: "('a \<Rightarrow> error + 'b option) \<Rightarrow> 'a list \<Rightarrow> error + 'b list" where
  "pushAll f [] = Inr []"
| "pushAll f (x # xs) =
     (case f x of
        Inl e \<Rightarrow> Inl e
      | Inr r \<Rightarrow>
          (case pushAll f xs of
             Inl e \<Rightarrow> Inl e
           | Inr rows \<Rightarrow> Inr (case r of None \<Rightarrow> rows | Some row \<Rightarrow> row # rows)))"

text \<open>
  One pass of the loop over the datasets: nothing when the band is not found, else the
  authors and then the texts of the dataset.
\<close>

definition pushRows :: "(string \<Rightarrow> jsnum) \<Rightarrow> outline list \<Rightarrow> dataset
                        \<Rightarrow> error + authorSpan list \<times> textInstant list" where
  "pushRows stringToNumber os ds =
     (case outlinesById os (ds_durationId ds) of
        None \<Rightarrow> Inr ([], [])
      | Some band \<Rightarrow>
          (case pushAll (authorRowOf stringToNumber (ds_durationId ds)) (ds_authors ds) of
             Inl e \<Rightarrow> Inl e
           | Inr rowsA \<Rightarrow>
               (case pushAll (textRowOf stringToNumber (ds_durationId ds)) (ds_texts ds) of
                  Inl e \<Rightarrow> Inl e
                | Inr rowsT \<Rightarrow> Inr (rowsA, rowsT))))"

fun pushDatasets :: "(string \<Rightarrow> jsnum) \<Rightarrow> outline list \<Rightarrow> dataset list
                     \<Rightarrow> error + authorSpan list \<times> textInstant list" where
  "pushDatasets stringToNumber os [] = Inr ([], [])"
| "pushDatasets stringToNumber os (ds # rest) =
     (case pushRows stringToNumber os ds of
        Inl e \<Rightarrow> Inl e
      | Inr (rowsA, rowsT) \<Rightarrow>
          (case pushDatasets stringToNumber os rest of
             Inl e \<Rightarrow> Inl e
           | Inr (rowsA', rowsT') \<Rightarrow> Inr (rowsA @ rowsA', rowsT @ rowsT')))"

text \<open>\<open>bandExtent\<close> and the two filters that end the memo.\<close>

definition bandExtent :: "outline list \<Rightarrow> (string \<rightharpoonup> real \<times> real)" where
  "bandExtent os =
     map_of (rev (map (\<lambda>b. (o_id b, (min (o_start b) (o_end b), max (o_start b) (o_end b)))) os))"

text \<open>The memo: an error, or \<open>authorRows\<close> and \<open>textRows\<close>.\<close>

definition rowsMemo :: "(string \<Rightarrow> jsnum) \<Rightarrow> outline list \<Rightarrow> dataset list
                        \<Rightarrow> error + authorSpan list \<times> textInstant list" where
  "rowsMemo stringToNumber os registry =
     (case pushDatasets stringToNumber os registry of
        Inl e \<Rightarrow> Inl e
      | Inr (rowsA, rowsT) \<Rightarrow>
          Inr (filter (\<lambda>r. case bandExtent os (as_durationId r) of
                             Some (emin, emax) \<Rightarrow> as_end r \<ge> emin \<and> as_start r \<le> emax
                           | None \<Rightarrow> True) rowsA,
               filter (\<lambda>r. case bandExtent os (ti_durationId r) of
                             Some (emin, emax) \<Rightarrow> ti_when r \<ge> emin \<and> ti_when r \<le> emax
                           | None \<Rightarrow> True) rowsT))"

definition authorRows :: "(string \<Rightarrow> jsnum) \<Rightarrow> outline list \<Rightarrow> dataset list
                          \<Rightarrow> error + authorSpan list" where
  "authorRows stringToNumber os registry =
     (case rowsMemo stringToNumber os registry of
        Inl e \<Rightarrow> Inl e
      | Inr (rowsA, rowsT) \<Rightarrow> Inr rowsA)"

definition textRows :: "(string \<Rightarrow> jsnum) \<Rightarrow> outline list \<Rightarrow> dataset list
                        \<Rightarrow> error + textInstant list" where
  "textRows stringToNumber os registry =
     (case rowsMemo stringToNumber os registry of
        Inl e \<Rightarrow> Inl e
      | Inr (rowsA, rowsT) \<Rightarrow> Inr rowsT)"

text \<open>
  A band from 753 BCE to 476 CE with its dataset folder, and a folder with no band. One
  author has a \<open>null\<close> birth year, one has none; one text has a \<open>null\<close> date, one has
  none. No string is parsed in these examples.
\<close>

definition romeDuration :: rawDuration where
  "romeDuration = \<lparr> d_id = ''rome-composite'', d_segments = None, d_start = Some (- 753),
                     d_end = Some 476, d_yRel = None, d_y = Some 10, d_hRel = None,
                     d_height = Some 24 \<rparr>"

definition noParse :: "string \<Rightarrow> jsnum" where
  "noParse str = NaN"

definition augustus :: jsobject where
  "augustus = [''Author'' \<mapsto> JStr ''Augustus'', ''Dataviz_birth'' \<mapsto> JNull,
               ''Dataviz_death'' \<mapsto> JNum (Fin 14)]"

definition seneca :: jsobject where
  "seneca = [''Author'' \<mapsto> JStr ''Seneca'', ''Dataviz_death'' \<mapsto> JNum (Fin 65)]"

definition resGestae :: jsobject where
  "resGestae = [''Name'' \<mapsto> JStr ''Res Gestae'', ''Author'' \<mapsto> JStr ''Augustus'',
                ''Dataviz date'' \<mapsto> JNull]"

definition fragment :: jsobject where
  "fragment = [''Name'' \<mapsto> JStr ''Fragment'', ''Approx. Date'' \<mapsto> JStr ''unknown'']"

definition plato :: jsobject where
  "plato = [''Author'' \<mapsto> JStr ''Plato'', ''Dataviz_birth'' \<mapsto> JNum (Fin (- 428)),
            ''Dataviz_death'' \<mapsto> JNum (Fin (- 348))]"

definition critias :: jsobject where
  "critias = [''Name'' \<mapsto> JStr ''Critias'', ''Dataviz date'' \<mapsto> JNum (Fin (- 360))]"

text \<open>A record whose name is a number, and whose birth year is absent.\<close>

definition numberedAuthor :: jsobject where
  "numberedAuthor = [''Author'' \<mapsto> JNum (Fin 1984), ''Dataviz_death'' \<mapsto> JNum (Fin 65)]"

definition romeAuthorModules :: "(string option \<times> jsobject option list) list" where
  "romeAuthorModules =
     [(Some ''rome'', [Some augustus, Some seneca]), (Some ''atlantis'', [Some plato])]"

definition romeTextModules :: "(string option \<times> jsobject option list) list" where
  "romeTextModules =
     [(Some ''rome'', [Some resGestae, Some fragment]), (Some ''atlantis'', [Some critias])]"

definition romeDataset :: dataset where
  "romeDataset = \<lparr> ds_folder = ''rome'', ds_durationId = ''rome-composite'',
                    ds_authors = [Some augustus, Some seneca],
                    ds_texts = [Some resGestae, Some fragment] \<rparr>"

definition atlantisDataset :: dataset where
  "atlantisDataset = \<lparr> ds_folder = ''atlantis'', ds_durationId = ''atlantis-composite'',
                        ds_authors = [Some plato], ds_texts = [Some critias] \<rparr>"

section \<open>Theorems\<close>

subsection \<open>Temporal mapping\<close>

lemma roundHalfEven_of_int: "roundHalfEven (real_of_int m) = m"
  by (simp add: roundHalfEven_def)

lemma ulp_pos: "0 < ulp x"
  by (simp add: ulp_def)

lemma roundToDouble_exact:
  assumes "x / ulp x = real_of_int m"
  shows "roundToDouble x = x"
proof (cases "x = 0")
  case True
  then show ?thesis by (simp add: roundToDouble_def)
next
  case False
  have "real_of_int (roundHalfEven (x / ulp x)) * ulp x = (x / ulp x) * ulp x"
    by (simp only: assms roundHalfEven_of_int)
  also have "\<dots> = x" using ulp_pos [of x] by simp
  finally show ?thesis using False by (simp add: roundToDouble_def)
qed

lemma binade_int:
  assumes "n \<noteq> 0" and "\<bar>n\<bar> \<le> 2 ^ 53"
  shows "0 \<le> binade (real_of_int n)" and "binade (real_of_int n) \<le> 53"
    and "2 powr real_of_int (binade (real_of_int n)) \<le> \<bar>real_of_int n\<bar>"
proof -
  let ?a = "\<bar>real_of_int n\<bar>"
  let ?e = "\<lfloor>log 2 ?a\<rfloor>"
  have "1 \<le> \<bar>n\<bar>" using assms(1) by simp
  then have "real_of_int 1 \<le> real_of_int \<bar>n\<bar>" by (simp only: of_int_le_iff)
  then have a1: "1 \<le> ?a" by simp
  then have "0 \<le> log 2 ?a" by simp
  then have e0: "0 \<le> ?e" by simp
  have a53: "?a \<le> 2 ^ 53"
    using assms(2) by (metis of_int_abs of_int_le_iff of_int_numeral of_int_power)
  have sandwich: "2 powr real_of_int ?e \<le> ?a \<and> ?a < 2 powr real_of_int (?e + 1)"
    using a1 floor_log_eq_powr_iff [of ?a 2 ?e] by simp
  have "log 2 ?a \<le> log 2 (2 ^ 53)"
    using a1 a53 by (subst log_le_cancel_iff) auto
  also have "log 2 (2 ^ 53) = (53::real)"
    by (subst log_pow_cancel) auto
  finally have e53: "?e \<le> 53" by (simp add: floor_le_iff)
  have b: "binade (real_of_int n) = ?e" using e0 by (simp add: binade_def)
  show "0 \<le> binade (real_of_int n)" using b e0 by simp
  show "binade (real_of_int n) \<le> 53" using b e53 by simp
  show "2 powr real_of_int (binade (real_of_int n)) \<le> \<bar>real_of_int n\<bar>"
    using b sandwich by simp
qed

lemma roundToDouble_int:
  assumes "\<bar>n\<bar> \<le> 2 ^ 53"
  shows "roundToDouble (real_of_int n) = real_of_int n"
proof (cases "n = 0")
  case True
  then show ?thesis by (simp add: roundToDouble_def)
next
  case False
  let ?x = "real_of_int n"
  let ?e = "binade ?x"
  note b = binade_int [OF False assms]
  show ?thesis
  proof (cases "?e \<le> 52")
    case True
    have "?x / ulp ?x = ?x * 2 powr real_of_int (52 - ?e)"
      by (simp add: ulp_def powr_diff field_simps)
    also have "\<dots> = ?x * 2 ^ nat (52 - ?e)"
      using True by (simp add: powr_realpow [symmetric])
    also have "\<dots> = real_of_int (n * 2 ^ nat (52 - ?e))" by simp
    finally show ?thesis by (rule roundToDouble_exact)
  next
    case False
    with b(2) have e: "?e = 53" by simp
    with b(3) have "2 ^ 53 \<le> \<bar>?x\<bar>" by simp
    moreover have "\<bar>?x\<bar> \<le> 2 ^ 53"
      using assms by (metis of_int_abs of_int_le_iff of_int_numeral of_int_power)
    ultimately have ax: "\<bar>?x\<bar> = 2 ^ 53" by simp
    have u: "ulp ?x = 2" using e by (simp add: ulp_def)
    have "?x / ulp ?x = real_of_int (if 0 \<le> n then 2 ^ 52 else - (2 ^ 52))"
      using ax u by (auto simp: abs_if split: if_splits)
    then show ?thesis by (rule roundToDouble_exact)
  qed
qed

lemma roundToDouble_tie:
  "roundToDouble (- 9007199254740993) = - 9007199254740992"
proof -
  have "\<lfloor>log 2 \<bar>- 9007199254740993 :: real\<bar>\<rfloor> = 53"
    by (subst floor_log_eq_powr_iff) simp_all
  then have u: "ulp (- 9007199254740993) = 2"
    by (simp add: ulp_def binade_def)
  show ?thesis
    by (simp add: roundToDouble_def u roundHalfEven_def Let_def)
qed

lemma roundToDouble_even_example:
  "roundToDouble (- 9007199254740994) = - 9007199254740994"
proof -
  have "\<lfloor>log 2 \<bar>- 9007199254740994 :: real\<bar>\<rfloor> = 53"
    by (subst floor_log_eq_powr_iff) simp_all
  then have u: "ulp (- 9007199254740994) = 2"
    by (simp add: ulp_def binade_def)
  show ?thesis
    by (simp add: roundToDouble_def u roundHalfEven_def Let_def)
qed

text \<open>
  C6 as stated fails beyond the integers that doubles hold exactly. The year
  \<open>-9007199254740994\<close> is a double; adding 1 gives a tie that rounds to \<open>-2^53\<close>, and
  subtracting 1 from that rounds back to \<open>-2^53\<close>.
\<close>

theorem year_round_trip_counterexample:
  "roundToDouble (real_of_int (- 9007199254740994)) = real_of_int (- 9007199254740994)
   \<and> toAstronomical (real_of_int (- 9007199254740994)) = - 9007199254740992
   \<and> fromAstronomical (toAstronomical (real_of_int (- 9007199254740994))) = - 9007199254740992
   \<and> fromAstronomical (toAstronomical (real_of_int (- 9007199254740994)))
       \<noteq> real_of_int (- 9007199254740994)"
  by (simp add: toAstronomical_def fromAstronomical_def roundToDouble_tie
        roundToDouble_even_example)

text \<open>
  C6, as amended. For every integer year \<open>y\<close> other than zero with \<open>|y| \<le> 2^53\<close>,
  converting to the astronomical numbering and back returns \<open>y\<close>.
\<close>

theorem year_round_trip:
  assumes "y \<noteq> 0" and "\<bar>y\<bar> \<le> 2 ^ 53"
  shows "fromAstronomical (toAstronomical (real_of_int y)) = real_of_int y"
proof (cases "y < 0")
  case True
  then have le: "real_of_int y \<le> 0" and le1: "real_of_int (y + 1) \<le> 0"
    by simp_all
  from True assms(2) have "\<bar>y + 1\<bar> \<le> 2 ^ 53" by simp
  then have up: "roundToDouble (real_of_int (y + 1)) = real_of_int (y + 1)"
    by (rule roundToDouble_int)
  have down: "roundToDouble (real_of_int y) = real_of_int y"
    using assms(2) by (rule roundToDouble_int)
  have "toAstronomical (real_of_int y) = roundToDouble (real_of_int (y + 1))"
    using le by (simp add: toAstronomical_def)
  then have to: "toAstronomical (real_of_int y) = real_of_int (y + 1)"
    by (simp only: up)
  have "fromAstronomical (real_of_int (y + 1)) = roundToDouble (real_of_int (y + 1) - 1)"
    using le1 by (simp only: fromAstronomical_def if_True)
  also have "real_of_int (y + 1) - 1 = real_of_int y" by simp
  finally show ?thesis by (simp only: to down)
next
  case False
  with assms(1) have "0 < real_of_int y" by simp
  then show ?thesis
    by (simp add: toAstronomical_def fromAstronomical_def)
qed

theorem year_round_trip_witness:
  "(- 3100::int) \<noteq> 0 \<and> \<bar>- 3100::int\<bar> \<le> 2 ^ 53
   \<and> fromAstronomical (toAstronomical (real_of_int (- 3100))) = real_of_int (- 3100)"
  using year_round_trip [of "- 3100"] by simp

subsection \<open>Interaction state machine\<close>

lemmas handler_defs =
  clearActiveSegment_def clearActiveDuration_def setActiveSegment_def setActiveDuration_def
  syncDurationHoverFromPointer_def updateInteractivity_def outlineMouseEnter_def
  outlineMouseLeave_def outlineClick_def svgClick_def segMouseEnter_def segMouseLeave_def
  segClick_def markClick_def zoomStart_def thresholdHandoff_def zoomEvent_def zoomEnd_def
  effectRun_def

lemma modeInv_init: "modeInv initialInteraction"
  by (simp add: modeInv_def initialInteraction_def MIN_ZOOM_def ZOOM_THRESHOLD_def)

lemma modeInv_handle:
  assumes "modeInv st" and "delivered e st"
  shows "modeInv (handle e st)"
proof (cases e)
  case (Zoom k' se)
  with assms show ?thesis
    by (cases se) (auto simp: modeInv_def handler_defs Let_def)
next
  case (ZoomEnd se)
  with assms show ?thesis
    by (cases se) (auto simp: modeInv_def handler_defs Let_def)
next
  case EffectRun
  with assms show ?thesis
    by (auto simp: modeInv_def handler_defs Let_def)
qed (use assms in \<open>auto simp: modeInv_def handler_defs Let_def\<close>)

lemma reachable_modeInv: "reachable st \<Longrightarrow> modeInv st"
  by (induction rule: reachable.induct) (auto intro: modeInv_init modeInv_handle)

text \<open>
  C4. In overview mode, a click on band \<open>a\<close> while no close click is awaited makes
  \<open>a\<close> active and arms the flag; the next click that can be delivered, whatever its
  target (the canvas, \<open>a\<close> again or another band \<open>b\<close>), disarms the flag and leaves no
  duration active, so a click on \<open>b\<close> does not open \<open>b\<close>.
\<close>

theorem one_shot_close:
  assumes "kRef st < ZOOM_THRESHOLD" and "\<not> awaitingCloseClickRef st"
  shows "activeDurationIdRef (handle (OutlineClick a) st) = Some a
       \<and> awaitingCloseClickRef (handle (OutlineClick a) st)
       \<and> kRef (handle (OutlineClick a) st) = kRef st
       \<and> (\<forall>e. isClick e \<and> delivered e (handle (OutlineClick a) st) \<longrightarrow>
             activeDurationIdRef (handle e (handle (OutlineClick a) st)) = None
           \<and> \<not> awaitingCloseClickRef (handle e (handle (OutlineClick a) st)))
       \<and> activeDurationIdRef (handle (OutlineClick b) (handle (OutlineClick a) st)) \<noteq> Some b"
proof -
  let ?st1 = "handle (OutlineClick a) st"
  have open1: "activeDurationIdRef ?st1 = Some a" "awaitingCloseClickRef ?st1"
      "kRef ?st1 = kRef st"
    using assms by (simp_all add: handler_defs)
  have close: "activeDurationIdRef (handle e ?st1) = None
             \<and> \<not> awaitingCloseClickRef (handle e ?st1)"
    if "isClick e" and "delivered e ?st1" for e
    using that open1 assms(1) by (cases e) (simp_all add: handler_defs)
  have "delivered (OutlineClick b) ?st1"
    using open1 assms(1) by simp
  with close [of "OutlineClick b"] have "activeDurationIdRef (handle (OutlineClick b) ?st1) \<noteq> Some b"
    by simp
  with open1 close show ?thesis by blast
qed

theorem one_shot_close_witness:
  "kRef initialInteraction < ZOOM_THRESHOLD \<and> \<not> awaitingCloseClickRef initialInteraction
   \<and> activeDurationIdRef (handle (OutlineClick ''egypt'') initialInteraction) = Some ''egypt''
   \<and> awaitingCloseClickRef (handle (OutlineClick ''egypt'') initialInteraction)
   \<and> activeDurationIdRef
        (handle (OutlineClick ''sumer'') (handle (OutlineClick ''egypt'') initialInteraction)) = None
   \<and> activeDurationIdRef
        (handle CanvasClick (handle (OutlineClick ''egypt'') initialInteraction)) = None"
proof -
  have h1: "kRef initialInteraction < ZOOM_THRESHOLD"
    by (simp add: initialInteraction_def MIN_ZOOM_def ZOOM_THRESHOLD_def)
  have h2: "\<not> awaitingCloseClickRef initialInteraction"
    by (simp add: initialInteraction_def)
  note t = one_shot_close [OF h1 h2, of "''egypt''" "''sumer''"]
  have d1: "isClick (OutlineClick ''sumer'') \<and>
            delivered (OutlineClick ''sumer'') (handle (OutlineClick ''egypt'') initialInteraction)"
    using t h1 by simp
  have d2: "isClick CanvasClick \<and>
            delivered CanvasClick (handle (OutlineClick ''egypt'') initialInteraction)"
    by simp
  from t d1 d2 h1 h2 show ?thesis by blast
qed

text \<open>
  C5. In every state reachable from the initial one through delivered events, overview
  mode has no active segment and no hovered-segment parent, and detail mode has no
  active duration, no hovered duration and no pending close click. A zoom event that
  crosses the threshold clears the track it leaves in that same event.
\<close>

theorem mode_exclusivity:
  assumes "reachable st"
  shows "(kRef st < ZOOM_THRESHOLD \<longrightarrow>
            activeSegIdRef st = None \<and> hoveredSegParentIdRef st = None)
       \<and> (kRef st \<ge> ZOOM_THRESHOLD \<longrightarrow>
            activeDurationIdRef st = None \<and> hoveredDurationIdRef st = None
            \<and> \<not> awaitingCloseClickRef st)
       \<and> (\<forall>k' se. kRef st < ZOOM_THRESHOLD \<and> k' \<ge> ZOOM_THRESHOLD \<longrightarrow>
            activeDurationIdRef (handle (Zoom k' se) st) = None
            \<and> hoveredDurationIdRef (handle (Zoom k' se) st) = None
            \<and> \<not> awaitingCloseClickRef (handle (Zoom k' se) st))
       \<and> (\<forall>k' se. kRef st \<ge> ZOOM_THRESHOLD \<and> k' < ZOOM_THRESHOLD \<longrightarrow>
            activeSegIdRef (handle (Zoom k' se) st) = None
            \<and> hoveredSegParentIdRef (handle (Zoom k' se) st) = None)"
proof -
  have inv: "modeInv st" using assms by (rule reachable_modeInv)
  have next_inv: "modeInv (handle (Zoom k' se) st)" for k' se
    using inv by (rule modeInv_handle) simp
  have k_next: "kRef (handle (Zoom k' se) st) = k'" for k' se
    by (cases se) (auto simp: handler_defs Let_def)
  from inv have here: "(kRef st < ZOOM_THRESHOLD \<longrightarrow>
            activeSegIdRef st = None \<and> hoveredSegParentIdRef st = None)
       \<and> (kRef st \<ge> ZOOM_THRESHOLD \<longrightarrow>
            activeDurationIdRef st = None \<and> hoveredDurationIdRef st = None
            \<and> \<not> awaitingCloseClickRef st)"
    by (simp add: modeInv_def)
  have up: "activeDurationIdRef (handle (Zoom k' se) st) = None
            \<and> hoveredDurationIdRef (handle (Zoom k' se) st) = None
            \<and> \<not> awaitingCloseClickRef (handle (Zoom k' se) st)"
    if "k' \<ge> ZOOM_THRESHOLD" for k' se
    using next_inv [of k' se] k_next [of k' se] that by (simp add: modeInv_def)
  have down: "activeSegIdRef (handle (Zoom k' se) st) = None
            \<and> hoveredSegParentIdRef (handle (Zoom k' se) st) = None"
    if "k' < ZOOM_THRESHOLD" for k' se
    using next_inv [of k' se] k_next [of k' se] that by (simp add: modeInv_def)
  from here up down show ?thesis by blast
qed

theorem mode_exclusivity_witness:
  "reachable (handle (Zoom 3 None) (handle (OutlineClick ''egypt'') initialInteraction))
   \<and> kRef (handle (Zoom 3 None) (handle (OutlineClick ''egypt'') initialInteraction))
       \<ge> ZOOM_THRESHOLD
   \<and> activeDurationIdRef (handle (OutlineClick ''egypt'') initialInteraction) = Some ''egypt''
   \<and> activeDurationIdRef
        (handle (Zoom 3 None) (handle (OutlineClick ''egypt'') initialInteraction)) = None
   \<and> \<not> awaitingCloseClickRef
        (handle (Zoom 3 None) (handle (OutlineClick ''egypt'') initialInteraction))"
proof -
  let ?st1 = "handle (OutlineClick ''egypt'') initialInteraction"
  let ?st2 = "handle (Zoom 3 None) ?st1"
  have k0: "kRef initialInteraction < ZOOM_THRESHOLD"
    by (simp add: initialInteraction_def MIN_ZOOM_def ZOOM_THRESHOLD_def)
  then have r1: "reachable ?st1"
    by (intro reachable_step reachable_init) simp
  then have r2: "reachable ?st2"
    by (rule reachable_step) simp
  have k2: "kRef ?st2 \<ge> ZOOM_THRESHOLD"
    by (simp add: handler_defs ZOOM_THRESHOLD_def)
  have a1: "activeDurationIdRef ?st1 = Some ''egypt''"
    using k0 by (simp add: handler_defs initialInteraction_def)
  from mode_exclusivity [OF r2] k2 r2 a1 show ?thesis by blast
qed

subsection \<open>Collision-avoidance layout\<close>

lemma clampCy_inPaddedExtent: "inPaddedExtent G (clampCy G v)"
  by (simp add: inPaddedExtent_def clampCy_def)

lemma searchLanes_Some:
  "searchLanes G it placed offs = Some cy \<Longrightarrow>
     \<not> collides G (it_cx it) cy placed \<and> (\<exists>off. cy = clampCy G (it_baseCy it + off))"
  by (induction offs) (auto simp: Let_def split: if_splits)

lemma chooseCy_inPaddedExtent: "inPaddedExtent G (fst (chooseCy G placed it))"
  by (auto simp: chooseCy_def clampCy_inPaddedExtent split: option.splits
           dest!: searchLanes_Some)

lemma scanPlaced_separated:
  assumes "sorted_wrt (\<lambda>p q. p_cx p \<ge> p_cx q) ps"
    and "\<not> scanPlaced G cx cy ps"
  shows "\<forall>p \<in> set ps. \<bar>cx - p_cx p\<bar> \<ge> f_minDX G \<or> \<bar>cy - p_cy p\<bar> \<ge> f_minDY G"
  using assms
proof (induction ps)
  case Nil
  then show ?case by simp
next
  case (Cons p ps)
  show ?case
  proof (cases "cx - p_cx p > f_minDX G")
    case True
    have "\<bar>cx - p_cx q\<bar> \<ge> f_minDX G" if "q \<in> set (p # ps)" for q
    proof -
      from that Cons.prems(1) have "p_cx q \<le> p_cx p" by auto
      with True show ?thesis by linarith
    qed
    then show ?thesis by blast
  next
    case False
    with Cons.prems have here: "\<bar>cx - p_cx p\<bar> \<ge> f_minDX G \<or> \<bar>cy - p_cy p\<bar> \<ge> f_minDY G"
      and rest: "\<not> scanPlaced G cx cy ps"
      by (auto split: if_splits)
    from Cons.prems(1) have "sorted_wrt (\<lambda>p q. p_cx p \<ge> p_cx q) ps" by simp
    with Cons.IH rest here show ?thesis by simp
  qed
qed

lemma chooseCy_found_separated:
  assumes "sorted_wrt (\<lambda>p q. p_cx p \<le> p_cx q) placed"
    and "chooseCy G placed it = (cy, True)"
  shows "\<forall>p \<in> set placed. \<bar>it_cx it - p_cx p\<bar> \<ge> f_minDX G \<or> \<bar>cy - p_cy p\<bar> \<ge> f_minDY G"
proof -
  from assms(2) have "searchLanes G it placed (laneOffsets G) = Some cy"
    by (auto simp: chooseCy_def split: option.splits)
  then have free: "\<not> scanPlaced G (it_cx it) cy (rev placed)"
    using searchLanes_Some [of G it placed "laneOffsets G" cy] by (simp add: collides_def)
  from assms(1) have "sorted_wrt (\<lambda>p q. p_cx p \<ge> p_cx q) (rev placed)"
    by (simp add: sorted_wrt_rev)
  from scanPlaced_separated [OF this free] show ?thesis by simp
qed

lemma placeLoop_separated:
  assumes "sorted (map it_cx its)"
    and "sorted_wrt (\<lambda>p q. p_cx p \<le> p_cx q) placed"
    and "\<forall>p \<in> set placed. \<forall>it \<in> set its. p_cx p \<le> it_cx it"
    and "sorted_wrt (laterFoundOrSeparated G) placed"
  shows "sorted_wrt (laterFoundOrSeparated G) (fst (placeLoop G its (placed, adj)))"
  using assms
proof (induction its arbitrary: placed adj)
  case Nil
  then show ?case by simp
next
  case (Cons it its)
  obtain cy found where ch: "chooseCy G placed it = (cy, found)"
    by (cases "chooseCy G placed it")
  let ?q = "\<lparr> p_cx = it_cx it, p_cy = cy, p_id = t_id (it_d it), p_found = found \<rparr>"
  have new: "laterFoundOrSeparated G p ?q" if "p \<in> set placed" for p
  proof (cases found)
    case True
    with ch have "chooseCy G placed it = (cy, True)" by simp
    from chooseCy_found_separated [OF Cons.prems(2) this] that
    have "\<bar>it_cx it - p_cx p\<bar> \<ge> f_minDX G \<or> \<bar>cy - p_cy p\<bar> \<ge> f_minDY G" by blast
    then show ?thesis
      by (auto simp: laterFoundOrSeparated_def separated_def abs_minus_commute)
  next
    case False
    then show ?thesis by (simp add: laterFoundOrSeparated_def)
  qed
  have s1: "sorted (map it_cx its)" using Cons.prems(1) by simp
  have s2: "sorted_wrt (\<lambda>p q. p_cx p \<le> p_cx q) (placed @ [?q])"
    using Cons.prems(2,3) by (simp add: sorted_wrt_append)
  have s3: "\<forall>p \<in> set (placed @ [?q]). \<forall>it' \<in> set its. p_cx p \<le> it_cx it'"
    using Cons.prems(1,3) by auto
  have s4: "sorted_wrt (laterFoundOrSeparated G) (placed @ [?q])"
    using Cons.prems(4) new by (simp add: sorted_wrt_append)
  from Cons.IH [OF s1 s2 s3 s4] ch show ?case by simp
qed

lemma placeLoop_entries:
  "map (\<lambda>p. (p_id p, p_cx p)) (fst (placeLoop G its (placed, adj))) =
     map (\<lambda>p. (p_id p, p_cx p)) placed @ map (\<lambda>it. (t_id (it_d it), it_cx it)) its"
proof (induction its arbitrary: placed adj)
  case Nil
  then show ?case by simp
next
  case (Cons it its)
  then show ?case by (cases "chooseCy G placed it") simp
qed

lemma placeLoop_inPaddedExtent:
  assumes "x \<in> set (map (\<lambda>it. t_id (it_d it)) its) \<or> (\<exists>cy. adj x = Some cy \<and> inPaddedExtent G cy)"
  shows "\<exists>cy. snd (placeLoop G its (placed, adj)) x = Some cy \<and> inPaddedExtent G cy"
  using assms
proof (induction its arbitrary: placed adj)
  case Nil
  then show ?case by simp
next
  case (Cons it its)
  obtain cy found where ch: "chooseCy G placed it = (cy, found)"
    by (cases "chooseCy G placed it")
  have ok: "inPaddedExtent G cy"
    using chooseCy_inPaddedExtent [of G placed it] ch by simp
  let ?q = "\<lparr> p_cx = it_cx it, p_cy = cy, p_id = t_id (it_d it), p_found = found \<rparr>"
  have "x \<in> set (map (\<lambda>it. t_id (it_d it)) its)
        \<or> (\<exists>c. (adj(t_id (it_d it) \<mapsto> cy)) x = Some c \<and> inPaddedExtent G c)"
    using Cons.prems ok by auto
  then have "\<exists>c. snd (placeLoop G its (placed @ [?q], adj(t_id (it_d it) \<mapsto> cy))) x = Some c
                 \<and> inPaddedExtent G c"
    by (rule Cons.IH)
  with ch show ?case by simp
qed

lemma frameOf_fields:
  "bandTop (frameOf zy k band) = zy (o_y band)"
  "bandBottom (frameOf zy k band) = zy (o_y band + o_h band)"
  "f_r (frameOf zy k band) = dotRadius k"
  "f_minDX (frameOf zy k band) = minDX k"
  "f_minDY (frameOf zy k band) = minDY k"
  "f_laneStep (frameOf zy k band) = laneStep k"
  by (simp_all add: frameOf_def Let_def)

lemma sorted_wrt_either:
  "sorted_wrt R xs \<Longrightarrow> x \<in> set xs \<Longrightarrow> y \<in> set xs \<Longrightarrow> x \<noteq> y \<Longrightarrow> R x y \<or> R y x"
  by (induction xs) auto

lemma sortedItems_sorted: "sorted (map it_cx (sortedItems zx zy items))"
  by (simp add: sortedItems_def)

lemma sortedItems_ids:
  "mset (map (\<lambda>it. t_id (it_d it)) (sortedItems zx zy items)) = mset (map t_id items)"
proof -
  have "mset (map (\<lambda>it. t_id (it_d it)) (sortedItems zx zy items)) =
        image_mset (\<lambda>it. t_id (it_d it)) (mset (sortedItems zx zy items))"
    by simp
  also have "\<dots> = mset (map t_id items)"
    by (simp add: sortedItems_def image_mset.compositionality comp_def)
  finally show ?thesis .
qed

lemma sortedItems_member:
  assumes "d \<in> set items"
  shows "(t_id d, zx (toAstronomical (t_when d)))
           \<in> set (map (\<lambda>it. (t_id (it_d it), it_cx it)) (sortedItems zx zy items))"
proof -
  let ?it = "\<lparr> it_d = d, it_cx = zx (toAstronomical (t_when d)), it_baseCy = zy (t_y d) \<rparr>"
  from assms have "?it \<in> set (sortedItems zx zy items)"
    by (simp add: sortedItems_def image_iff)
  then have "(t_id (it_d ?it), it_cx ?it)
               \<in> set (map (\<lambda>it. (t_id (it_d it), it_cx it)) (sortedItems zx zy items))"
    by (simp only: set_map) (rule imageI)
  then show ?thesis by simp
qed

lemma layoutBand_entry:
  assumes "d \<in> set items"
  shows "\<exists>p \<in> set (fst (layoutBand zx zy k band items adj)).
           p_id p = t_id d \<and> p_cx p = zx (toAstronomical (t_when d))"
proof -
  have "(t_id d, zx (toAstronomical (t_when d)))
          \<in> set (map (\<lambda>p. (p_id p, p_cx p)) (fst (layoutBand zx zy k band items adj)))"
    using sortedItems_member [OF assms, of zx zy]
    by (simp only: layoutBand_def placeLoop_entries) simp
  then show ?thesis by auto
qed

lemma layoutBand_separated:
  "sorted_wrt (laterFoundOrSeparated (frameOf zy k band))
     (fst (layoutBand zx zy k band items adj))"
  unfolding layoutBand_def
  by (rule placeLoop_separated) (simp_all add: sortedItems_sorted)

text \<open>
  C2. For every band, every zoom factor \<open>k > 0\<close> and every list of texts of the band
  (repeated dates and repeated ids included), the layout gives each text of the band one
  centre in \<open>adjustedCy\<close>; the centre lies between \<open>bandTop + r\<close> and \<open>bandBottom - r\<close>
  when the band is at least \<open>2 r\<close> high and is \<open>bandTop + r\<close> otherwise, whether or not
  the lane search found a free offset. One dot is placed per text.
\<close>

theorem layout_total_within_band:
  assumes "0 < k" and "d \<in> set items"
  shows "length (fst (layoutBand zx zy k band items adj)) = length items
       \<and> (\<exists>cy. snd (layoutBand zx zy k band items adj) (t_id d) = Some cy
            \<and> (if zy (o_y band + o_h band) - zy (o_y band) \<ge> 2 * dotRadius k
               then zy (o_y band) + dotRadius k \<le> cy
                    \<and> cy \<le> zy (o_y band + o_h band) - dotRadius k
               else cy = zy (o_y band) + dotRadius k))"
proof -
  let ?G = "frameOf zy k band"
  let ?its = "sortedItems zx zy items"
  have "length (map (\<lambda>p. (p_id p, p_cx p)) (fst (placeLoop ?G ?its ([], adj)))) = length ?its"
    by (simp only: placeLoop_entries) simp
  then have len: "length (fst (layoutBand zx zy k band items adj)) = length items"
    by (simp add: layoutBand_def sortedItems_def)
  have "set (map (\<lambda>it. t_id (it_d it)) ?its) = set (map t_id items)"
    by (rule mset_eq_setD) (rule sortedItems_ids)
  with assms(2) have "t_id d \<in> set (map (\<lambda>it. t_id (it_d it)) ?its)"
    by simp
  then have "\<exists>cy. snd (placeLoop ?G ?its ([], adj)) (t_id d) = Some cy \<and> inPaddedExtent ?G cy"
    by (intro placeLoop_inPaddedExtent disjI1)
  then obtain cy where cy: "snd (layoutBand zx zy k band items adj) (t_id d) = Some cy"
      "inPaddedExtent ?G cy"
    by (auto simp: layoutBand_def)
  from cy(2) have "if zy (o_y band + o_h band) - zy (o_y band) \<ge> 2 * dotRadius k
               then zy (o_y band) + dotRadius k \<le> cy
                    \<and> cy \<le> zy (o_y band + o_h band) - dotRadius k
               else cy = zy (o_y band) + dotRadius k"
    by (simp only: inPaddedExtent_def frameOf_fields)
  with len cy(1) show ?thesis by blast
qed

lemma unit_frame_values: "dotRadius 1 = 7 / 10" "minDX 1 = 12 / 5" "minDY 1 = 12 / 5"
    "laneStep 1 = 12 / 5"
  by (simp_all add: dotRadius_def TEXT_BASE_R_def minDX_def minDY_def laneStep_def
        laneStepPad_def round_def)

lemma twinLayout_value:
  "fst twinLayout = [\<lparr> p_cx = 100, p_cy = 1, p_id = ''t1'', p_found = True \<rparr>,
                     \<lparr> p_cx = 100, p_cy = 1, p_id = ''t2'', p_found = False \<rparr>]"
  "snd twinLayout = [''t1'' \<mapsto> 1, ''t2'' \<mapsto> 1]"
proof -
  have fr: "frameOf id 1 narrowBand =
      \<lparr> bandTop = 0, bandBottom = 2, f_r = 7 / 10, f_minDX = 12 / 5, f_minDY = 12 / 5,
        f_laneStep = 12 / 5, maxLanes = 1 \<rparr>"
    by (simp add: frameOf_def narrowBand_def unit_frame_values Let_def)
  have si: "sortedItems id id twinTexts =
      [\<lparr> it_d = \<lparr> t_id = ''t1'', t_durationId = ''b'', t_when = 100, t_y = 1 \<rparr>,
         it_cx = 100, it_baseCy = 1 \<rparr>,
       \<lparr> it_d = \<lparr> t_id = ''t2'', t_durationId = ''b'', t_when = 100, t_y = 1 \<rparr>,
         it_cx = 100, it_baseCy = 1 \<rparr>]"
    by (simp add: sortedItems_def twinTexts_def toAstronomical_def)
  show "fst twinLayout = [\<lparr> p_cx = 100, p_cy = 1, p_id = ''t1'', p_found = True \<rparr>,
                          \<lparr> p_cx = 100, p_cy = 1, p_id = ''t2'', p_found = False \<rparr>]"
    by (simp add: twinLayout_def layoutBand_def fr si chooseCy_def laneOffsets_def
          clampCy_def collides_def)
  show "snd twinLayout = [''t1'' \<mapsto> 1, ''t2'' \<mapsto> 1]"
    by (simp add: twinLayout_def layoutBand_def fr si chooseCy_def laneOffsets_def
          clampCy_def collides_def)
qed

lemma tripleLayout_value:
  "fst (layoutBand id id 1 tallBand tripleTexts Map.empty) =
     [\<lparr> p_cx = 100, p_cy = 10, p_id = ''t1'', p_found = True \<rparr>,
      \<lparr> p_cx = 100, p_cy = 62 / 5, p_id = ''t2'', p_found = True \<rparr>,
      \<lparr> p_cx = 100, p_cy = 38 / 5, p_id = ''t3'', p_found = True \<rparr>]"
  "snd (layoutBand id id 1 tallBand tripleTexts Map.empty) =
     [''t1'' \<mapsto> 10, ''t2'' \<mapsto> 62 / 5, ''t3'' \<mapsto> 38 / 5]"
proof -
  have fr: "frameOf id 1 tallBand =
      \<lparr> bandTop = 0, bandBottom = 20, f_r = 7 / 10, f_minDX = 12 / 5, f_minDY = 12 / 5,
        f_laneStep = 12 / 5, maxLanes = 8 \<rparr>"
    by (simp add: frameOf_def tallBand_def unit_frame_values Let_def)
  have si: "sortedItems id id tripleTexts =
      [\<lparr> it_d = \<lparr> t_id = ''t1'', t_durationId = ''b'', t_when = 100, t_y = 10 \<rparr>,
         it_cx = 100, it_baseCy = 10 \<rparr>,
       \<lparr> it_d = \<lparr> t_id = ''t2'', t_durationId = ''b'', t_when = 100, t_y = 10 \<rparr>,
         it_cx = 100, it_baseCy = 10 \<rparr>,
       \<lparr> it_d = \<lparr> t_id = ''t3'', t_durationId = ''b'', t_when = 100, t_y = 10 \<rparr>,
         it_cx = 100, it_baseCy = 10 \<rparr>]"
    by (simp add: sortedItems_def tripleTexts_def toAstronomical_def)
  have offs: "laneOffsets \<lparr> bandTop = 0, bandBottom = 20, f_r = 7 / 10, f_minDX = 12 / 5,
        f_minDY = 12 / 5, f_laneStep = 12 / 5, maxLanes = 8 \<rparr>
      = [0, 12 / 5, - (12 / 5), 24 / 5, - (24 / 5), 36 / 5, - (36 / 5), 48 / 5, - (48 / 5),
         12, - 12, 72 / 5, - (72 / 5), 84 / 5, - (84 / 5)]"
    by (simp add: laneOffsets_def upt_rec)
  show "fst (layoutBand id id 1 tallBand tripleTexts Map.empty) =
     [\<lparr> p_cx = 100, p_cy = 10, p_id = ''t1'', p_found = True \<rparr>,
      \<lparr> p_cx = 100, p_cy = 62 / 5, p_id = ''t2'', p_found = True \<rparr>,
      \<lparr> p_cx = 100, p_cy = 38 / 5, p_id = ''t3'', p_found = True \<rparr>]"
    by (simp add: layoutBand_def fr si chooseCy_def offs clampCy_def collides_def)
  show "snd (layoutBand id id 1 tallBand tripleTexts Map.empty) =
     [''t1'' \<mapsto> 10, ''t2'' \<mapsto> 62 / 5, ''t3'' \<mapsto> 38 / 5]"
    by (simp add: layoutBand_def fr si chooseCy_def offs clampCy_def collides_def)
qed

lemma searchLanes_None_iff:
  "searchLanes G it placed offs = None \<longleftrightarrow>
     (\<forall>off \<in> set offs. collides G (it_cx it) (clampCy G (it_baseCy it + off)) placed)"
  by (induction offs) (auto simp: Let_def)

lemma chooseCy_not_found:
  "\<not> snd (chooseCy G placed it) \<longleftrightarrow>
     (\<forall>off \<in> set (laneOffsets G).
        collides G (it_cx it) (clampCy G (it_baseCy it + off)) placed)"
  "\<not> snd (chooseCy G placed it) \<Longrightarrow> fst (chooseCy G placed it) = clampCy G (it_baseCy it)"
  using searchLanes_None_iff [of G it placed "laneOffsets G"]
  by (auto simp: chooseCy_def split: option.splits)

lemma placeLoop_prefix:
  "take (length placed) (fst (placeLoop G its (placed, adj))) = placed"
proof (induction its arbitrary: placed adj)
  case Nil
  then show ?case by simp
next
  case (Cons it its)
  obtain cy found where ch: "chooseCy G placed it = (cy, found)"
    by (cases "chooseCy G placed it")
  let ?q = "\<lparr> p_cx = it_cx it, p_cy = cy, p_id = t_id (it_d it), p_found = found \<rparr>"
  let ?res = "fst (placeLoop G its (placed @ [?q], adj(t_id (it_d it) \<mapsto> cy)))"
  have unroll: "placeLoop G (it # its) (placed, adj) =
                placeLoop G its (placed @ [?q], adj(t_id (it_d it) \<mapsto> cy))"
    using ch by simp
  have "take (length (placed @ [?q])) ?res = placed @ [?q]" by (rule Cons.IH)
  then have "take (length placed) (take (length (placed @ [?q])) ?res)
             = take (length placed) (placed @ [?q])"
    by (simp only:)
  then have "take (length placed) ?res = placed" by (simp add: min_def)
  then show ?case by (simp only: unroll)
qed

lemma placeLoop_keeps: "set placed \<subseteq> set (fst (placeLoop G its (placed, adj)))"
  using placeLoop_prefix [of placed G its adj] set_take_subset by metis

lemma placeLoop_nth:
  assumes "j < length its"
  shows "fst (placeLoop G its (placed, adj)) ! (length placed + j) =
           \<lparr> p_cx = it_cx (its ! j),
             p_cy = fst (chooseCy G (take (length placed + j)
                                        (fst (placeLoop G its (placed, adj)))) (its ! j)),
             p_id = t_id (it_d (its ! j)),
             p_found = snd (chooseCy G (take (length placed + j)
                                          (fst (placeLoop G its (placed, adj)))) (its ! j)) \<rparr>"
  using assms
proof (induction its arbitrary: placed adj j)
  case Nil
  then show ?case by simp
next
  case (Cons it its)
  obtain cy found where ch: "chooseCy G placed it = (cy, found)"
    by (cases "chooseCy G placed it")
  define q where "q = \<lparr> p_cx = it_cx it, p_cy = cy, p_id = t_id (it_d it), p_found = found \<rparr>"
  define adj' where "adj' = adj(t_id (it_d it) \<mapsto> cy)"
  define res where "res = fst (placeLoop G its (placed @ [q], adj'))"
  have unroll: "fst (placeLoop G (it # its) (placed, adj)) = res"
    using ch by (simp add: res_def q_def adj'_def)
  have pre: "take (Suc (length placed)) res = placed @ [q]"
    using placeLoop_prefix [of "placed @ [q]" G its adj'] by (simp add: res_def)
  show ?case
  proof (cases j)
    case 0
    have "take (length placed) (take (Suc (length placed)) res) = placed"
      by (simp only: pre) simp
    then have t0: "take (length placed) res = placed" by (simp add: min_def)
    have "res ! length placed = take (Suc (length placed)) res ! length placed"
      by simp
    also have "\<dots> = q" by (simp only: pre) simp
    finally have "res ! length placed = q" .
    with t0 ch show ?thesis unfolding 0 unroll by (simp add: q_def)
  next
    case (Suc j')
    with Cons.prems have "j' < length its" by simp
    from Cons.IH [OF this, of "placed @ [q]" adj']
    have "res ! (length (placed @ [q]) + j') =
           \<lparr> p_cx = it_cx (its ! j'),
             p_cy = fst (chooseCy G (take (length (placed @ [q]) + j') res) (its ! j')),
             p_id = t_id (it_d (its ! j')),
             p_found = snd (chooseCy G (take (length (placed @ [q]) + j') res) (its ! j')) \<rparr>"
      by (simp only: res_def)
    then show ?thesis unfolding Suc unroll by simp
  qed
qed

lemma placeLoop_adjusted_unique:
  assumes "p \<in> set (fst (placeLoop G its (placed, adj)))"
    and "\<forall>q \<in> set (fst (placeLoop G its (placed, adj))). p_id q = p_id p \<longrightarrow> q = p"
    and "p \<in> set placed \<longrightarrow> adj (p_id p) = Some (p_cy p)"
  shows "snd (placeLoop G its (placed, adj)) (p_id p) = Some (p_cy p)"
  using assms
proof (induction its arbitrary: placed adj)
  case Nil
  then show ?case by simp
next
  case (Cons it its)
  obtain cy found where ch: "chooseCy G placed it = (cy, found)"
    by (cases "chooseCy G placed it")
  let ?q = "\<lparr> p_cx = it_cx it, p_cy = cy, p_id = t_id (it_d it), p_found = found \<rparr>"
  let ?adj = "adj(t_id (it_d it) \<mapsto> cy)"
  have unroll: "placeLoop G (it # its) (placed, adj) = placeLoop G its (placed @ [?q], ?adj)"
    using ch by simp
  have q_in: "?q \<in> set (fst (placeLoop G its (placed @ [?q], ?adj)))"
    using placeLoop_keeps [of "placed @ [?q]" G its ?adj] by auto
  have uniq: "\<forall>q \<in> set (fst (placeLoop G its (placed @ [?q], ?adj))). p_id q = p_id p \<longrightarrow> q = p"
    using Cons.prems(2) by (simp only: unroll)
  have "?adj (p_id p) = Some (p_cy p)" if "p \<in> set (placed @ [?q])"
  proof (cases "p = ?q")
    case True
    then show ?thesis by simp
  next
    case False
    with that have "p \<in> set placed" by simp
    with Cons.prems(3) have old: "adj (p_id p) = Some (p_cy p)" by simp
    from uniq q_in False have "p_id ?q \<noteq> p_id p" by blast
    then show ?thesis using old by simp
  qed
  then have start: "p \<in> set (placed @ [?q]) \<longrightarrow> ?adj (p_id p) = Some (p_cy p)" by blast
  have "p \<in> set (fst (placeLoop G its (placed @ [?q], ?adj)))"
    using Cons.prems(1) by (simp only: unroll)
  from Cons.IH [OF this uniq start] show ?case by (simp only: unroll)
qed

lemma filter_single:
  assumes "length (filter P xs) = 1" and "x \<in> set xs" and "P x" and "y \<in> set xs" and "P y"
  shows "x = y"
proof -
  from assms(1) obtain z where z: "filter P xs = [z]"
    by (cases "filter P xs") auto
  from assms(2,3) have "x \<in> set (filter P xs)" by simp
  moreover from assms(4,5) have "y \<in> set (filter P xs)" by simp
  ultimately show ?thesis by (simp add: z)
qed

lemma count_map_filter: "count (mset (map f xs)) y = length (filter (\<lambda>x. f x = y) xs)"
  by (induction xs) auto

lemma layoutBand_ids:
  "map p_id (fst (layoutBand zx zy k band items adj)) =
     map (\<lambda>it. t_id (it_d it)) (sortedItems zx zy items)"
proof -
  have "map fst (map (\<lambda>p. (p_id p, p_cx p)) (fst (layoutBand zx zy k band items adj))) =
        map fst (map (\<lambda>it. (t_id (it_d it), it_cx it)) (sortedItems zx zy items))"
    by (simp only: layoutBand_def placeLoop_entries) simp
  then show ?thesis by (simp add: comp_def)
qed

lemma layoutBand_single_id:
  assumes "length (filter (\<lambda>d'. t_id d' = x) items) = 1"
  shows "length (filter (\<lambda>p. p_id p = x) (fst (layoutBand zx zy k band items adj))) = 1"
proof -
  have "length (filter (\<lambda>p. p_id p = x) (fst (layoutBand zx zy k band items adj)))
        = count (mset (map p_id (fst (layoutBand zx zy k band items adj)))) x"
    by (simp only: count_map_filter)
  also have "\<dots> = count (mset (map t_id items)) x"
    by (simp only: layoutBand_ids sortedItems_ids)
  also have "\<dots> = length (filter (\<lambda>d'. t_id d' = x) items)"
    by (simp only: count_map_filter)
  finally show ?thesis using assms by simp
qed

lemma layoutBand_adjusted_unique:
  assumes "length (filter (\<lambda>d'. t_id d' = p_id p) items) = 1"
    and "p \<in> set (fst (layoutBand zx zy k band items adj))"
  shows "snd (layoutBand zx zy k band items adj) (p_id p) = Some (p_cy p)"
proof -
  have one: "length (filter (\<lambda>q. p_id q = p_id p)
                       (fst (layoutBand zx zy k band items adj))) = 1"
    using assms(1) by (rule layoutBand_single_id)
  have "\<forall>q \<in> set (fst (layoutBand zx zy k band items adj)). p_id q = p_id p \<longrightarrow> q = p"
    using filter_single [OF one _ _ assms(2)] by blast
  with assms(2) show ?thesis
    unfolding layoutBand_def by (intro placeLoop_adjusted_unique) simp_all
qed

lemma layoutBand_nth:
  assumes "j < length (fst (layoutBand zx zy k band items adj))"
  shows "p_id (fst (layoutBand zx zy k band items adj) ! j)
           = t_id (it_d (sortedItems zx zy items ! j))
       \<and> p_cx (fst (layoutBand zx zy k band items adj) ! j) = it_cx (sortedItems zx zy items ! j)
       \<and> ((\<not> p_found (fst (layoutBand zx zy k band items adj) ! j)) =
            (\<forall>off \<in> set (laneOffsets (frameOf zy k band)).
               collides (frameOf zy k band) (it_cx (sortedItems zx zy items ! j))
                 (clampCy (frameOf zy k band) (it_baseCy (sortedItems zx zy items ! j) + off))
                 (take j (fst (layoutBand zx zy k band items adj)))))
       \<and> (\<not> p_found (fst (layoutBand zx zy k band items adj) ! j) \<longrightarrow>
            p_cy (fst (layoutBand zx zy k band items adj) ! j)
              = clampCy (frameOf zy k band) (it_baseCy (sortedItems zx zy items ! j)))"
proof -
  let ?G = "frameOf zy k band"
  let ?its = "sortedItems zx zy items"
  let ?res = "fst (placeLoop ?G ?its ([], adj))"
  have "length (map (\<lambda>p. (p_id p, p_cx p)) ?res) = length ?its"
    by (simp only: placeLoop_entries) simp
  with assms have j: "j < length ?its" by (simp add: layoutBand_def)
  from placeLoop_nth [OF j, of ?G "[]" adj]
  have e: "?res ! j =
           \<lparr> p_cx = it_cx (?its ! j),
             p_cy = fst (chooseCy ?G (take j ?res) (?its ! j)),
             p_id = t_id (it_d (?its ! j)),
             p_found = snd (chooseCy ?G (take j ?res) (?its ! j)) \<rparr>"
    by simp
  show ?thesis
    unfolding layoutBand_def
    by (subst e)+ (simp add: chooseCy_not_found)
qed

lemma hymnLayout_value:
  "fst hymnLayout =
     [\<lparr> p_cx = 100, p_cy = 10, p_id = ''b__text__Hymn__100'', p_found = True \<rparr>,
      \<lparr> p_cx = 100, p_cy = 67 / 5, p_id = ''b__text__Hymn__100'', p_found = True \<rparr>]"
  "snd hymnLayout = [''b__text__Hymn__100'' \<mapsto> 67 / 5]"
proof -
  have fr: "frameOf id 1 tallBand =
      \<lparr> bandTop = 0, bandBottom = 20, f_r = 7 / 10, f_minDX = 12 / 5, f_minDY = 12 / 5,
        f_laneStep = 12 / 5, maxLanes = 8 \<rparr>"
    by (simp add: frameOf_def tallBand_def unit_frame_values Let_def)
  have si: "sortedItems id id hymnTexts =
      [\<lparr> it_d = \<lparr> t_id = ''b__text__Hymn__100'', t_durationId = ''b'', t_when = 100,
                  t_y = 10 \<rparr>,
         it_cx = 100, it_baseCy = 10 \<rparr>,
       \<lparr> it_d = \<lparr> t_id = ''b__text__Hymn__100'', t_durationId = ''b'', t_when = 100,
                  t_y = 11 \<rparr>,
         it_cx = 100, it_baseCy = 11 \<rparr>]"
    by (simp add: sortedItems_def hymnTexts_def toAstronomical_def)
  have offs: "laneOffsets \<lparr> bandTop = 0, bandBottom = 20, f_r = 7 / 10, f_minDX = 12 / 5,
        f_minDY = 12 / 5, f_laneStep = 12 / 5, maxLanes = 8 \<rparr>
      = [0, 12 / 5, - (12 / 5), 24 / 5, - (24 / 5), 36 / 5, - (36 / 5), 48 / 5, - (48 / 5),
         12, - 12, 72 / 5, - (72 / 5), 84 / 5, - (84 / 5)]"
    by (simp add: laneOffsets_def upt_rec)
  show "fst hymnLayout =
     [\<lparr> p_cx = 100, p_cy = 10, p_id = ''b__text__Hymn__100'', p_found = True \<rparr>,
      \<lparr> p_cx = 100, p_cy = 67 / 5, p_id = ''b__text__Hymn__100'', p_found = True \<rparr>]"
    by (simp add: hymnLayout_def layoutBand_def fr si chooseCy_def offs clampCy_def
          collides_def)
  show "snd hymnLayout = [''b__text__Hymn__100'' \<mapsto> 67 / 5]"
    by (simp add: hymnLayout_def layoutBand_def fr si chooseCy_def offs clampCy_def
          collides_def)
qed

text \<open>
  C1 as stated fails in two ways. In a band with a single lane, the first of two texts of
  the same date finds its lane (nothing is placed yet), the second exhausts the offsets
  and is clamped onto it: the two dots coincide although only one of them exhausted its
  lanes. And two texts that share an id (same title and date, other author) share one
  entry of \<open>adjustedCy\<close>: the later placement replaces the earlier one, both dots are drawn
  at the later centre, and neither exhausted its lanes.
\<close>

theorem collision_avoidance_counterexample:
  "snd twinLayout ''t1'' = Some 1 \<and> snd twinLayout ''t2'' = Some 1
   \<and> \<not> (\<bar>id (toAstronomical 100) - id (toAstronomical 100)\<bar> \<ge> minDX 1
        \<or> \<bar>the (snd twinLayout ''t1'') - the (snd twinLayout ''t2'')\<bar> \<ge> minDY 1
        \<or> (''t1'' \<in> exhaustedIds (fst twinLayout) \<and> ''t2'' \<in> exhaustedIds (fst twinLayout)))
   \<and> hymnTexts ! 0 \<noteq> hymnTexts ! 1
   \<and> t_id (hymnTexts ! 0) = ''b__text__Hymn__100''
   \<and> t_id (hymnTexts ! 1) = ''b__text__Hymn__100''
   \<and> snd hymnLayout ''b__text__Hymn__100'' = Some (67 / 5)
   \<and> exhaustedIds (fst hymnLayout) = {}
   \<and> \<not> (\<bar>id (toAstronomical 100) - id (toAstronomical 100)\<bar> \<ge> minDX 1
        \<or> \<bar>the (snd hymnLayout ''b__text__Hymn__100'')
             - the (snd hymnLayout ''b__text__Hymn__100'')\<bar> \<ge> minDY 1
        \<or> ''b__text__Hymn__100'' \<in> exhaustedIds (fst hymnLayout))"
  by (simp add: twinLayout_value hymnLayout_value hymnTexts_def exhaustedIds_def
        unit_frame_values)

text \<open>
  C1, as amended. For every band, every zoom factor \<open>k > 0\<close> and every two distinct texts
  of the band whose ids belong to no other text of the band, the final centres are at
  least \<open>minDX\<close> apart horizontally, or at least \<open>minDY\<close> apart vertically, or at least
  one of the two texts exhausted all lane offsets and was placed by the clamp. A text
  counts as exhausted exactly when the trial position of every lane offset collided with
  a dot placed before it; it then sits at its clamped base position.
\<close>

theorem collision_avoidance:
  assumes "0 < k"
    and "d1 \<in> set items" and "d2 \<in> set items" and "d1 \<noteq> d2"
    and "length (filter (\<lambda>d. t_id d = t_id d1) items) = 1"
    and "length (filter (\<lambda>d. t_id d = t_id d2) items) = 1"
  shows "(\<exists>cy1 cy2.
           snd (layoutBand zx zy k band items adj) (t_id d1) = Some cy1
         \<and> snd (layoutBand zx zy k band items adj) (t_id d2) = Some cy2
         \<and> (\<bar>zx (toAstronomical (t_when d1)) - zx (toAstronomical (t_when d2))\<bar> \<ge> minDX k
            \<or> \<bar>cy1 - cy2\<bar> \<ge> minDY k
            \<or> t_id d1 \<in> exhaustedIds (fst (layoutBand zx zy k band items adj))
            \<or> t_id d2 \<in> exhaustedIds (fst (layoutBand zx zy k band items adj))))
       \<and> (\<forall>j < length (fst (layoutBand zx zy k band items adj)).
             p_id (fst (layoutBand zx zy k band items adj) ! j)
               = t_id (it_d (sortedItems zx zy items ! j))
           \<and> p_cx (fst (layoutBand zx zy k band items adj) ! j)
               = it_cx (sortedItems zx zy items ! j)
           \<and> ((\<not> p_found (fst (layoutBand zx zy k band items adj) ! j)) =
                (\<forall>off \<in> set (laneOffsets (frameOf zy k band)).
                   collides (frameOf zy k band) (it_cx (sortedItems zx zy items ! j))
                     (clampCy (frameOf zy k band)
                        (it_baseCy (sortedItems zx zy items ! j) + off))
                     (take j (fst (layoutBand zx zy k band items adj)))))
           \<and> (\<not> p_found (fst (layoutBand zx zy k band items adj) ! j) \<longrightarrow>
                p_cy (fst (layoutBand zx zy k band items adj) ! j)
                  = clampCy (frameOf zy k band) (it_baseCy (sortedItems zx zy items ! j))))"
proof -
  let ?G = "frameOf zy k band"
  let ?placed = "fst (layoutBand zx zy k band items adj)"
  let ?adjusted = "snd (layoutBand zx zy k band items adj)"
  from layoutBand_entry [OF assms(2)] obtain p1 where p1: "p1 \<in> set ?placed"
      "p_id p1 = t_id d1" "p_cx p1 = zx (toAstronomical (t_when d1))"
    by blast
  from layoutBand_entry [OF assms(3)] obtain p2 where p2: "p2 \<in> set ?placed"
      "p_id p2 = t_id d2" "p_cx p2 = zx (toAstronomical (t_when d2))"
    by blast
  have ids: "t_id d1 \<noteq> t_id d2"
    using filter_single [OF assms(5) assms(2) refl assms(3)] assms(4) by auto
  with p1(2) p2(2) have ne: "p1 \<noteq> p2" by auto
  have a1: "?adjusted (t_id d1) = Some (p_cy p1)"
    using layoutBand_adjusted_unique [of p1 items zx zy k band adj] assms(5) p1(1,2) by simp
  have a2: "?adjusted (t_id d2) = Some (p_cy p2)"
    using layoutBand_adjusted_unique [of p2 items zx zy k band adj] assms(6) p2(1,2) by simp
  note mdx = frameOf_fields(4) [of zy k band] and mdy = frameOf_fields(5) [of zy k band]
  from sorted_wrt_either [OF layoutBand_separated p1(1) p2(1) ne]
  have "laterFoundOrSeparated ?G p1 p2 \<or> laterFoundOrSeparated ?G p2 p1" .
  then have "separated ?G p1 p2 \<or> \<not> p_found p1 \<or> \<not> p_found p2"
    by (auto simp: laterFoundOrSeparated_def separated_def abs_minus_commute)
  moreover have "t_id d1 \<in> exhaustedIds ?placed" if "\<not> p_found p1"
    using that p1(1,2) by (auto simp: exhaustedIds_def image_iff)
  moreover have "t_id d2 \<in> exhaustedIds ?placed" if "\<not> p_found p2"
    using that p2(1,2) by (auto simp: exhaustedIds_def image_iff)
  ultimately have "\<bar>p_cx p1 - p_cx p2\<bar> \<ge> minDX k \<or> \<bar>p_cy p1 - p_cy p2\<bar> \<ge> minDY k
      \<or> t_id d1 \<in> exhaustedIds ?placed \<or> t_id d2 \<in> exhaustedIds ?placed"
    using mdx mdy by (auto simp: separated_def)
  with a1 a2 p1(3) p2(3) have pair: "\<exists>cy1 cy2.
           ?adjusted (t_id d1) = Some cy1 \<and> ?adjusted (t_id d2) = Some cy2
         \<and> (\<bar>zx (toAstronomical (t_when d1)) - zx (toAstronomical (t_when d2))\<bar> \<ge> minDX k
            \<or> \<bar>cy1 - cy2\<bar> \<ge> minDY k
            \<or> t_id d1 \<in> exhaustedIds ?placed \<or> t_id d2 \<in> exhaustedIds ?placed)"
    by auto
  show ?thesis
    apply (rule conjI)
     apply (rule pair)
    apply (intro allI impI)
    apply (erule layoutBand_nth)
    done
qed

theorem collision_avoidance_witness:
  "0 < (1::real)
   \<and> \<lparr> t_id = ''t1'', t_durationId = ''b'', t_when = 100, t_y = 10 \<rparr> \<in> set tripleTexts
   \<and> \<lparr> t_id = ''t2'', t_durationId = ''b'', t_when = 100, t_y = 10 \<rparr> \<in> set tripleTexts
   \<and> length (filter (\<lambda>d. t_id d = ''t1'') tripleTexts) = 1
   \<and> length (filter (\<lambda>d. t_id d = ''t2'') tripleTexts) = 1
   \<and> snd (layoutBand id id 1 tallBand tripleTexts Map.empty) ''t1'' = Some 10
   \<and> snd (layoutBand id id 1 tallBand tripleTexts Map.empty) ''t2'' = Some (62 / 5)
   \<and> exhaustedIds (fst (layoutBand id id 1 tallBand tripleTexts Map.empty)) = {}
   \<and> (\<exists>cy1 cy2.
           snd (layoutBand id id 1 tallBand tripleTexts Map.empty) ''t1'' = Some cy1
         \<and> snd (layoutBand id id 1 tallBand tripleTexts Map.empty) ''t2'' = Some cy2
         \<and> (\<bar>id (toAstronomical 100) - id (toAstronomical 100)\<bar> \<ge> minDX 1
            \<or> \<bar>cy1 - cy2\<bar> \<ge> minDY 1
            \<or> ''t1'' \<in> exhaustedIds (fst (layoutBand id id 1 tallBand tripleTexts Map.empty))
            \<or> ''t2'' \<in> exhaustedIds (fst (layoutBand id id 1 tallBand tripleTexts Map.empty))))"
proof -
  let ?d1 = "\<lparr> t_id = ''t1'', t_durationId = ''b'', t_when = 100, t_y = 10 \<rparr>"
  let ?d2 = "\<lparr> t_id = ''t2'', t_durationId = ''b'', t_when = 100, t_y = 10 \<rparr>"
  have h1: "0 < (1::real)" by simp
  have h3: "?d1 \<in> set tripleTexts" by (simp add: tripleTexts_def)
  have h4: "?d2 \<in> set tripleTexts" by (simp add: tripleTexts_def)
  have h5: "?d1 \<noteq> ?d2" by simp
  have u1: "length (filter (\<lambda>d. t_id d = t_id ?d1) tripleTexts) = 1"
    by (simp add: tripleTexts_def)
  have u2: "length (filter (\<lambda>d. t_id d = t_id ?d2) tripleTexts) = 1"
    by (simp add: tripleTexts_def)
  have v1: "snd (layoutBand id id 1 tallBand tripleTexts Map.empty) ''t1'' = Some 10"
    and v2: "snd (layoutBand id id 1 tallBand tripleTexts Map.empty) ''t2'' = Some (62 / 5)"
    and v3: "exhaustedIds (fst (layoutBand id id 1 tallBand tripleTexts Map.empty)) = {}"
    by (simp_all add: tripleLayout_value exhaustedIds_def)
  from collision_avoidance [where zx = id and zy = id and band = tallBand
      and adj = Map.empty, OF h1 h3 h4 h5 u1 u2]
  have "\<exists>cy1 cy2.
           snd (layoutBand id id 1 tallBand tripleTexts Map.empty) ''t1'' = Some cy1
         \<and> snd (layoutBand id id 1 tallBand tripleTexts Map.empty) ''t2'' = Some cy2
         \<and> (\<bar>id (toAstronomical 100) - id (toAstronomical 100)\<bar> \<ge> minDX 1
            \<or> \<bar>cy1 - cy2\<bar> \<ge> minDY 1
            \<or> ''t1'' \<in> exhaustedIds (fst (layoutBand id id 1 tallBand tripleTexts Map.empty))
            \<or> ''t2'' \<in> exhaustedIds (fst (layoutBand id id 1 tallBand tripleTexts Map.empty)))"
    by simp
  moreover from u1 u2 have "length (filter (\<lambda>d. t_id d = ''t1'') tripleTexts) = 1"
      "length (filter (\<lambda>d. t_id d = ''t2'') tripleTexts) = 1"
    by simp_all
  ultimately show ?thesis using h1 h3 h4 v1 v2 v3 by (intro conjI)
qed

theorem layout_total_within_band_witness:
  "0 < (1::real)
   \<and> \<lparr> t_id = ''aaa'', t_durationId = ''b'', t_when = 100, t_y = 10 \<rparr> \<in> set twentyTexts
   \<and> length (fst (layoutBand id id 1 tallBand twentyTexts Map.empty)) = 20
   \<and> (\<exists>cy. snd (layoutBand id id 1 tallBand twentyTexts Map.empty) ''aaa'' = Some cy
          \<and> 7 / 10 \<le> cy \<and> cy \<le> 193 / 10)"
proof -
  let ?d = "\<lparr> t_id = ''aaa'', t_durationId = ''b'', t_when = 100, t_y = 10 \<rparr>"
  have h1: "0 < (1::real)" by simp
  have "?d = (\<lambda>n. \<lparr> t_id = replicate (Suc n) (CHR ''a''), t_durationId = ''b'',
                     t_when = 100, t_y = 10 \<rparr>) 2"
    by (simp add: numeral_2_eq_2)
  also have "\<dots> \<in> set twentyTexts"
    unfolding twentyTexts_def set_map by (rule imageI) simp
  finally have h2: "?d \<in> set twentyTexts" .
  have len: "length twentyTexts = 20" by (simp add: twentyTexts_def)
  from layout_total_within_band [where zx = id and zy = id and band = tallBand
      and adj = Map.empty, OF h1 h2]
  show ?thesis using h2 len by (simp add: tallBand_def unit_frame_values)
qed

subsection \<open>Tooltip anchoring\<close>

lemma showTip_horizontal:
  assumes "tw + 8 \<le> r_width wrapRect"
  shows "4 \<le> tip_left (showTip px py wrapRect tw th)"
    and "tip_left (showTip px py wrapRect tw th) \<le> r_width wrapRect - tw - 4"
  using assms by (simp_all add: showTip_def Let_def)

lemma showTip_inside:
  assumes "tw + 8 \<le> r_width wrapRect"
    and "0 \<le> py - r_top wrapRect" and "py - r_top wrapRect \<le> r_height wrapRect"
    and "th + 6 \<le> py - r_top wrapRect \<or> py - r_top wrapRect + 6 + th \<le> r_height wrapRect"
  shows "insideViewport wrapRect tw th (showTip px py wrapRect tw th)"
proof -
  have "0 \<le> tip_top (showTip px py wrapRect tw th)
        \<and> tip_top (showTip px py wrapRect tw th) + th \<le> r_height wrapRect"
    using assms(2-4) by (auto simp: showTip_def Let_def)
  with showTip_horizontal [OF assms(1), of px py th] show ?thesis
    by (simp add: insideViewport_def)
qed

lemma placeAnchored_horizontal:
  assumes "tw + 8 \<le> r_width wrapRect"
  shows "4 \<le> tip_left (placeAnchored a wrapRect tw th)"
    and "tip_left (placeAnchored a wrapRect tw th) \<le> r_width wrapRect - tw - 4"
  using assms by (simp_all add: placeAnchored_def Let_def)

lemma placeAnchored_vertical:
  "tip_below (placeAnchored a wrapRect tw th) \<longleftrightarrow>
     an_yTop a + an_hPix a + 8 + th \<le> r_height wrapRect"
  "tip_top (placeAnchored a wrapRect tw th) =
     (if an_yTop a + an_hPix a + 8 + th \<le> r_height wrapRect
      then an_yTop a + an_hPix a + 8 else an_yTop a - th - 8)"
  by (auto simp: placeAnchored_def Let_def)

lemma placeAnchored_inside:
  assumes "tw + 8 \<le> r_width wrapRect"
    and "0 \<le> an_yTop a" and "0 \<le> an_hPix a" and "an_yTop a + an_hPix a \<le> r_height wrapRect"
    and "an_yTop a + an_hPix a + 8 + th \<le> r_height wrapRect \<or> th + 8 \<le> an_yTop a"
  shows "insideViewport wrapRect tw th (placeAnchored a wrapRect tw th)"
proof -
  have "0 \<le> tip_top (placeAnchored a wrapRect tw th)
        \<and> tip_top (placeAnchored a wrapRect tw th) + th \<le> r_height wrapRect"
    using assms(2-5) by (auto simp: placeAnchored_vertical)
  with placeAnchored_horizontal [OF assms(1), of a th] show ?thesis
    by (simp add: insideViewport_def)
qed

text \<open>
  C3 as stated fails: with a wrapper larger than the tooltip, a segment rendered taller
  than the wrapper gets its tooltip flipped above its top edge, outside the wrapper; and
  in a wrapper exactly as wide as the tooltip the left edge is still put at 4.
\<close>

theorem tooltip_containment_counterexample:
  "200 \<le> r_width sampleWrap \<and> 60 \<le> r_height sampleWrap
   \<and> showSegAnchored (Some id) (Some zoomedY) tallSegment sampleWrap 200 60
       = Some \<lparr> tip_left = 100, tip_top = - 78, tip_below = False \<rparr>
   \<and> \<not> insideViewport sampleWrap 200 60 \<lparr> tip_left = 100, tip_top = - 78, tip_below = False \<rparr>
   \<and> 200 \<le> r_width tightWrap \<and> 60 \<le> r_height tightWrap
   \<and> showTip 100 200 tightWrap 200 60 = \<lparr> tip_left = 4, tip_top = 134, tip_below = False \<rparr>
   \<and> \<not> insideViewport tightWrap 200 60 (showTip 100 200 tightWrap 200 60)"
  by (simp add: sampleWrap_def tightWrap_def showSegAnchored_def getSegmentAnchorPx_def
        anchorOf_def placeAnchored_def tallSegment_def zoomedY_def toAstronomical_def
        showTip_def insideViewport_def Let_def)

text \<open>
  C3, as amended. When the wrapper is at least 8 pixels wider than the tooltip, the left
  edge is clamped to \<open>[4, width - tw - 4]\<close> by all three functions. \<open>showTip\<close> puts the
  tooltip 6 pixels above the given point and flips it below when the top would be
  negative; \<open>showSegAnchored\<close> and \<open>showDurationAnchored\<close> put it 8 pixels below the
  element and flip it above when it would overflow the bottom. The rectangle lies inside
  the wrapper when moreover the point, or the element, lies vertically inside the wrapper
  and the tooltip with its padding fits on one side of it.
\<close>

theorem tooltip_containment:
  assumes "tw + 8 \<le> r_width wrapRect"
  shows "4 \<le> tip_left (showTip px py wrapRect tw th)
       \<and> tip_left (showTip px py wrapRect tw th) \<le> r_width wrapRect - tw - 4
       \<and> (tip_below (showTip px py wrapRect tw th) \<longleftrightarrow> py - r_top wrapRect - th - 6 < 0)
       \<and> tip_top (showTip px py wrapRect tw th)
           = (if tip_below (showTip px py wrapRect tw th) then py - r_top wrapRect + 6
              else py - r_top wrapRect - th - 6)
       \<and> (0 \<le> py - r_top wrapRect \<and> py - r_top wrapRect \<le> r_height wrapRect
          \<and> (th + 6 \<le> py - r_top wrapRect \<or> py - r_top wrapRect + 6 + th \<le> r_height wrapRect)
          \<longrightarrow> insideViewport wrapRect tw th (showTip px py wrapRect tw th))
       \<and> (\<forall>pos. showSegAnchored zxRef zyRef seg wrapRect tw th = Some pos \<longrightarrow>
            (\<exists>a. getSegmentAnchorPx zxRef zyRef seg = Some a
                 \<and> clampedAndFlipped wrapRect tw th a pos))
       \<and> (\<forall>pos. showDurationAnchored zxRef zyRef out wrapRect tw th = Some pos \<longrightarrow>
            (\<exists>a. getDurationAnchorPx zxRef zyRef out = Some a
                 \<and> clampedAndFlipped wrapRect tw th a pos))"
proof -
  have below: "tip_below (showTip px py wrapRect tw th) \<longleftrightarrow> py - r_top wrapRect - th - 6 < 0"
    by (simp add: showTip_def Let_def)
  have top: "tip_top (showTip px py wrapRect tw th)
           = (if tip_below (showTip px py wrapRect tw th) then py - r_top wrapRect + 6
              else py - r_top wrapRect - th - 6)"
    by (simp add: showTip_def Let_def)
  have anchored: "clampedAndFlipped wrapRect tw th a (placeAnchored a wrapRect tw th)" for a
    using placeAnchored_horizontal [OF assms, of a th] placeAnchored_inside [OF assms, of a th]
    by (simp add: clampedAndFlipped_def placeAnchored_vertical)
  have seg: "\<exists>a. getSegmentAnchorPx zxRef zyRef seg = Some a
                 \<and> clampedAndFlipped wrapRect tw th a pos"
    if "showSegAnchored zxRef zyRef seg wrapRect tw th = Some pos" for pos
    using that anchored by (auto simp: showSegAnchored_def split: option.splits)
  have dur: "\<exists>a. getDurationAnchorPx zxRef zyRef out = Some a
                 \<and> clampedAndFlipped wrapRect tw th a pos"
    if "showDurationAnchored zxRef zyRef out wrapRect tw th = Some pos" for pos
    using that anchored by (auto simp: showDurationAnchored_def split: option.splits)
  have pointer: "0 \<le> py - r_top wrapRect \<and> py - r_top wrapRect \<le> r_height wrapRect
          \<and> (th + 6 \<le> py - r_top wrapRect \<or> py - r_top wrapRect + 6 + th \<le> r_height wrapRect)
          \<longrightarrow> insideViewport wrapRect tw th (showTip px py wrapRect tw th)"
    using showTip_inside [OF assms] by blast
  show ?thesis
    apply (intro conjI)
          apply (rule showTip_horizontal(1) [OF assms])
         apply (rule showTip_horizontal(2) [OF assms])
        apply (rule below)
       apply (rule top)
      apply (rule pointer)
     apply (intro allI impI)
     apply (erule seg)
    apply (intro allI impI)
    apply (erule dur)
    done
qed

theorem tooltip_containment_witness:
  "(200::real) + 8 \<le> r_width sampleWrap
   \<and> showSegAnchored (Some id) (Some id) sampleSegment sampleWrap 200 60
       = Some \<lparr> tip_left = 100, tip_top = 72, tip_below = True \<rparr>
   \<and> insideViewport sampleWrap 200 60 \<lparr> tip_left = 100, tip_top = 72, tip_below = True \<rparr>
   \<and> showTip 200 150 sampleWrap 200 60 = \<lparr> tip_left = 100, tip_top = 84, tip_below = False \<rparr>
   \<and> insideViewport sampleWrap 200 60 (showTip 200 150 sampleWrap 200 60)"
proof -
  have h: "(200::real) + 8 \<le> r_width sampleWrap"
    by (simp add: sampleWrap_def)
  note t = tooltip_containment [OF h, where px = 200 and py = 150 and th = 60
      and zxRef = "Some id" and zyRef = "Some id" and seg = sampleSegment and out = tallBand]
  have anchor: "getSegmentAnchorPx (Some id) (Some id) sampleSegment =
      Some \<lparr> an_left = 100, an_right = 300, an_xMid = 200, an_yTop = 40, an_hPix = 24 \<rparr>"
    by (simp add: getSegmentAnchorPx_def anchorOf_def sampleSegment_def toAstronomical_def
          Let_def)
  have shown: "showSegAnchored (Some id) (Some id) sampleSegment sampleWrap 200 60
       = Some \<lparr> tip_left = 100, tip_top = 72, tip_below = True \<rparr>"
    by (simp add: showSegAnchored_def anchor placeAnchored_def sampleWrap_def Let_def)
  from t shown anchor
  have "clampedAndFlipped sampleWrap 200 60
          \<lparr> an_left = 100, an_right = 300, an_xMid = 200, an_yTop = 40, an_hPix = 24 \<rparr>
          \<lparr> tip_left = 100, tip_top = 72, tip_below = True \<rparr>"
    by auto
  then have in1: "insideViewport sampleWrap 200 60
          \<lparr> tip_left = 100, tip_top = 72, tip_below = True \<rparr>"
    by (simp add: clampedAndFlipped_def sampleWrap_def placeAnchored_def Let_def)
  have "0 \<le> (150::real) - r_top sampleWrap \<and> 150 - r_top sampleWrap \<le> r_height sampleWrap
        \<and> ((60::real) + 6 \<le> 150 - r_top sampleWrap
            \<or> 150 - r_top sampleWrap + 6 + 60 \<le> r_height sampleWrap)"
    by (simp add: sampleWrap_def)
  with t have in2: "insideViewport sampleWrap 200 60 (showTip 200 150 sampleWrap 200 60)"
    by blast
  have val: "showTip 200 150 sampleWrap 200 60
      = \<lparr> tip_left = 100, tip_top = 84, tip_below = False \<rparr>"
    by (simp add: showTip_def sampleWrap_def Let_def)
  from h shown in1 val in2 show ?thesis by blast
qed

text \<open>
  C7 as stated fails: the hover handlers do not read the event. With the pointer on the
  right end of an author line, the tooltip is centred on the middle of the line, 90
  pixels to the left of where a pointer-anchored tooltip would be.
\<close>

theorem hover_tooltip_pointer_counterexample:
  "authorHoverTip (Some id) (Some id) sampleWrap sampleWrap 100 30
       \<lparr> clientX = 290, clientY = 58 \<rparr> sampleAuthor
     = Some \<lparr> tip_left = 150, tip_top = 22, tip_below = False \<rparr>
   \<and> pointerAnchoredTip sampleWrap 100 30 \<lparr> clientX = 290, clientY = 58 \<rparr>
     = \<lparr> tip_left = 240, tip_top = 22, tip_below = False \<rparr>
   \<and> authorHoverTip (Some id) (Some id) sampleWrap sampleWrap 100 30
       \<lparr> clientX = 290, clientY = 58 \<rparr> sampleAuthor
     \<noteq> Some (pointerAnchoredTip sampleWrap 100 30 \<lparr> clientX = 290, clientY = 58 \<rparr>)"
  by (simp add: authorHoverTip_def authorAnchorClient_def pointerAnchoredTip_def showTip_def
        sampleWrap_def sampleAuthor_def toAstronomical_def marginLeft_def marginTop_def Let_def)

text \<open>
  C7, as amended. On \<open>mouseenter\<close> and \<open>mousemove\<close> over an author line or a text dot, the
  tooltip is anchored at the element, not at the pointer: at the middle of the rendered
  line, or at the centre of the rendered dot, converted to client coordinates; the
  placement is the same for every event. \<open>showTip\<close> places it above that point, flipped
  below when the top would be negative, with the left edge clamped. Before the first
  render, when a rescaled axis is missing, nothing is shown.
\<close>

theorem hover_tooltip_anchored_at_element:
  "authorHoverTip zxRef zyRef svgRect wrapRect tw th ev d
     = authorHoverTip zxRef zyRef svgRect wrapRect tw th ev' d
   \<and> textHoverTip zxRef zyRef svgRect wrapRect tw th ev cyAttr t
     = textHoverTip zxRef zyRef svgRect wrapRect tw th ev' cyAttr t
   \<and> authorHoverTip (Some zx) (Some zy) svgRect wrapRect tw th ev d
     = Some (showTip
               (r_left svgRect + marginLeft
                  + (zx (toAstronomical (a_start d)) + zx (toAstronomical (a_end d))) / 2)
               (r_top svgRect + marginTop + zy (a_y d)) wrapRect tw th)
   \<and> textHoverTip (Some zx) (Some zy) svgRect wrapRect tw th ev cyAttr t
     = Some (showTip (r_left svgRect + marginLeft + zx (toAstronomical (t_when t)))
               (r_top svgRect + marginTop + cyAttr) wrapRect tw th)
   \<and> authorHoverTip None zyRef svgRect wrapRect tw th ev d = None
   \<and> authorHoverTip zxRef None svgRect wrapRect tw th ev d = None
   \<and> textHoverTip None zyRef svgRect wrapRect tw th ev cyAttr t = None
   \<and> textHoverTip zxRef None svgRect wrapRect tw th ev cyAttr t = None"
proof -
  have mid: "(min x0 x1 + max x0 x1) / 2 = (x0 + x1) / 2" for x0 x1 :: real
    by (simp add: min_def max_def)
  have same: "authorHoverTip zxRef zyRef svgRect wrapRect tw th ev d
       = authorHoverTip zxRef zyRef svgRect wrapRect tw th ev' d"
      "textHoverTip zxRef zyRef svgRect wrapRect tw th ev cyAttr t
       = textHoverTip zxRef zyRef svgRect wrapRect tw th ev' cyAttr t"
    by (simp_all add: authorHoverTip_def textHoverTip_def)
  have shown: "authorHoverTip (Some zx) (Some zy) svgRect wrapRect tw th ev d
     = Some (showTip
               (r_left svgRect + marginLeft
                  + (zx (toAstronomical (a_start d)) + zx (toAstronomical (a_end d))) / 2)
               (r_top svgRect + marginTop + zy (a_y d)) wrapRect tw th)"
      "textHoverTip (Some zx) (Some zy) svgRect wrapRect tw th ev cyAttr t
     = Some (showTip (r_left svgRect + marginLeft + zx (toAstronomical (t_when t)))
               (r_top svgRect + marginTop + cyAttr) wrapRect tw th)"
    by (simp_all add: authorHoverTip_def textHoverTip_def authorAnchorClient_def
          textAnchorClient_def Let_def mid)
  have no_x: "authorHoverTip None zyRef svgRect wrapRect tw th ev d = None"
      "textHoverTip None zyRef svgRect wrapRect tw th ev cyAttr t = None"
    by (simp_all add: authorHoverTip_def textHoverTip_def authorAnchorClient_def
          textAnchorClient_def)
  have no_y: "authorHoverTip zxRef None svgRect wrapRect tw th ev d = None"
      "textHoverTip zxRef None svgRect wrapRect tw th ev cyAttr t = None"
    by (cases zxRef; simp add: authorHoverTip_def textHoverTip_def authorAnchorClient_def
          textAnchorClient_def)+
  from same shown no_x no_y show ?thesis by (intro conjI)
qed

subsection \<open>Segment geometry\<close>

text \<open>
  C8 as stated fails for the interactive timeline: its \<open>segments\<close> memo gives the
  segment the slot of its band and never reads the segment's own fields.
\<close>

theorem segment_override_counterexample:
  "rs_y overridingSegment = Some 50 \<and> rs_height overridingSegment = Some 5
   \<and> segments 364 [overriddenBand]
       = [\<lparr> s_id = ''egypt__seg_0'', s_parentId = ''egypt'', s_start = - 3100,
            s_end = - 2686, s_y = 10, s_h = 24 \<rparr>]
   \<and> s_y (hd (segments 364 [overriddenBand])) \<noteq> 50
   \<and> s_h (hd (segments 364 [overriddenBand])) \<noteq> 5"
  by (simp add: segments_def segmentsOf_def overriddenBand_def overridingSegment_def
        bandY_def bandH_def decimal.simps Let_def)

text \<open>
  C8, as amended. In \<open>compositeRows\<close> of the plain timeline, a segment of a composite band
  takes its \<open>y\<close> from its own \<open>yRel\<close> (times the inner height), else from its own \<open>y\<close>,
  and inherits the band's \<open>yRel\<close> or \<open>y\<close> only when it has neither (36 pixels per index
  when the band has none either); likewise its height from its own \<open>hRel\<close>, else its own
  \<open>height\<close>, else the band's resolved height. In \<open>segments\<close> of the interactive timeline
  every segment takes the resolved \<open>y\<close> and \<open>h\<close> of its band.
\<close>

theorem segment_vertical_geometry:
  assumes "d_segments grp = Some segs" and "i < length segs"
  shows "cs_y (cr_segments (compositeRowOf H grp) ! i)
           = (case rs_yRel (segs ! i) of Some v \<Rightarrow> v * H
              | None \<Rightarrow> (case rs_y (segs ! i) of Some v \<Rightarrow> v
              | None \<Rightarrow> if d_yRel grp = None \<and> d_y grp = None then real i * 36
                        else bandY H grp))
       \<and> cs_h (cr_segments (compositeRowOf H grp) ! i)
           = (case rs_hRel (segs ! i) of Some v \<Rightarrow> v * H
              | None \<Rightarrow> (case rs_height (segs ! i) of Some v \<Rightarrow> v
              | None \<Rightarrow> bandH H grp))
       \<and> length (cr_segments (compositeRowOf H grp)) = length segs
       \<and> (grp \<in> set durations \<longrightarrow> compositeRowOf H grp \<in> set (compositeRows H durations))
       \<and> s_y (segmentsOf H grp ! i) = bandY H grp
       \<and> s_h (segmentsOf H grp ! i) = bandH H grp
       \<and> s_parentId (segmentsOf H grp ! i) = d_id grp
       \<and> length (segmentsOf H grp) = length segs
       \<and> (grp \<in> set durations \<longrightarrow> segmentsOf H grp ! i \<in> set (segments H durations))"
proof -
  have en: "enumerate 0 segs ! i = (i, segs ! i)"
    using assms(2) by (simp add: nth_enumerate_eq)
  have comp_y: "cs_y (cr_segments (compositeRowOf H grp) ! i) = compositeSegY H grp i (segs ! i)"
    and comp_h: "cs_h (cr_segments (compositeRowOf H grp) ! i) = compositeSegH H grp (segs ! i)"
    using assms by (simp_all add: compositeRowOf_def en)
  have y: "compositeSegY H grp i (segs ! i)
           = (case rs_yRel (segs ! i) of Some v \<Rightarrow> v * H
              | None \<Rightarrow> (case rs_y (segs ! i) of Some v \<Rightarrow> v
              | None \<Rightarrow> if d_yRel grp = None \<and> d_y grp = None then real i * 36
                        else bandY H grp))"
    by (simp add: compositeSegY_def bandY_def split: option.splits)
  have h: "compositeSegH H grp (segs ! i)
           = (case rs_hRel (segs ! i) of Some v \<Rightarrow> v * H
              | None \<Rightarrow> (case rs_height (segs ! i) of Some v \<Rightarrow> v
              | None \<Rightarrow> bandH H grp))"
    by (simp add: compositeSegH_def bandH_def split: option.splits)
  have len_c: "length (cr_segments (compositeRowOf H grp)) = length segs"
    using assms(1) by (simp add: compositeRowOf_def)
  have "isComposite grp"
    using assms by (auto simp: isComposite_def)
  then have mem_c: "grp \<in> set durations \<longrightarrow> compositeRowOf H grp \<in> set (compositeRows H durations)"
    by (simp add: compositeRows_def)
  have seg: "s_y (segmentsOf H grp ! i) = bandY H grp" "s_h (segmentsOf H grp ! i) = bandH H grp"
      "s_parentId (segmentsOf H grp ! i) = d_id grp"
    using assms by (simp_all add: segmentsOf_def Let_def en)
  have len_s: "length (segmentsOf H grp) = length segs"
    using assms(1) by (simp add: segmentsOf_def Let_def)
  have mem_s: "grp \<in> set durations \<longrightarrow> segmentsOf H grp ! i \<in> set (segments H durations)"
  proof
    assume "grp \<in> set durations"
    moreover have "segmentsOf H grp ! i \<in> set (segmentsOf H grp)"
      using len_s assms(2) by simp
    ultimately show "segmentsOf H grp ! i \<in> set (segments H durations)"
      by (auto simp: segments_def)
  qed
  from comp_y comp_h y h len_c mem_c seg len_s mem_s show ?thesis
    by (simp only:)
qed

theorem segment_vertical_geometry_witness:
  "d_segments overriddenBand = Some [overridingSegment] \<and> (0::nat) < length [overridingSegment]
   \<and> overriddenBand \<in> set [overriddenBand]
   \<and> cs_y (cr_segments (compositeRowOf 364 overriddenBand) ! 0) = 50
   \<and> cs_h (cr_segments (compositeRowOf 364 overriddenBand) ! 0) = 5
   \<and> compositeRowOf 364 overriddenBand \<in> set (compositeRows 364 [overriddenBand])
   \<and> s_y (segmentsOf 364 overriddenBand ! 0) = 10
   \<and> s_h (segmentsOf 364 overriddenBand ! 0) = 24
   \<and> segmentsOf 364 overriddenBand ! 0 \<in> set (segments 364 [overriddenBand])"
proof -
  have h1: "d_segments overriddenBand = Some [overridingSegment]"
    by (simp add: overriddenBand_def)
  have h2: "(0::nat) < length [overridingSegment]" by simp
  have h3: "overriddenBand \<in> set [overriddenBand]" by simp
  have own: "rs_yRel ([overridingSegment] ! 0) = None" "rs_y ([overridingSegment] ! 0) = Some 50"
      "rs_hRel ([overridingSegment] ! 0) = None" "rs_height ([overridingSegment] ! 0) = Some 5"
    by (simp_all add: overridingSegment_def)
  have band: "bandY 364 overriddenBand = 10" "bandH 364 overriddenBand = 24"
    by (simp_all add: bandY_def bandH_def overriddenBand_def)
  from segment_vertical_geometry [OF h1 h2, of 364 "[overriddenBand]"] h1 h2 h3 own band
  show ?thesis by simp
qed

subsection \<open>Author and text rows\<close>

lemma outlinesById_Some: "outlinesById os x = Some b \<Longrightarrow> x \<in> o_id ` set os"
  by (auto simp: outlinesById_def dest!: map_of_SomeD)

lemma authorRowOf_durationId:
  "authorRowOf P did rec = Inr (Some r) \<Longrightarrow> as_durationId r = did"
  by (auto simp: authorRowOf_def Let_def split: option.splits sum.splits if_splits)

lemma textRowOf_durationId:
  "textRowOf P did rec = Inr (Some r) \<Longrightarrow> ti_durationId r = did"
  by (auto simp: textRowOf_def Let_def split: option.splits sum.splits if_splits)

lemma pushAll_rows:
  "pushAll f xs = Inr rows \<Longrightarrow> r \<in> set rows \<Longrightarrow> \<exists>x \<in> set xs. f x = Inr (Some r)"
proof (induction xs arbitrary: rows)
  case Nil
  then show ?case by simp
next
  case (Cons x xs)
  from Cons.prems(1) obtain v rest where fx: "f x = Inr v" and rest: "pushAll f xs = Inr rest"
    and rows: "rows = (case v of None \<Rightarrow> rest | Some row \<Rightarrow> row # rest)"
    by (auto split: sum.splits)
  show ?case
  proof (cases "r \<in> set rest")
    case True
    from Cons.IH [OF rest True] show ?thesis by auto
  next
    case False
    with Cons.prems(2) rows have "v = Some r" by (cases v) auto
    with fx show ?thesis by simp
  qed
qed

lemma pushRows_unmatched:
  assumes "ds_durationId ds \<notin> o_id ` set os"
  shows "pushRows P os ds = Inr ([], [])"
proof (cases "outlinesById os (ds_durationId ds)")
  case None
  then show ?thesis by (simp add: pushRows_def)
next
  case (Some band)
  from outlinesById_Some [OF Some] assms show ?thesis by simp
qed

lemma pushRows_durationId:
  assumes "pushRows P os ds = Inr (rowsA, rowsT)"
  shows "(\<forall>r \<in> set rowsA. as_durationId r \<in> o_id ` set os)
       \<and> (\<forall>r \<in> set rowsT. ti_durationId r \<in> o_id ` set os)"
proof (cases "outlinesById os (ds_durationId ds)")
  case None
  with assms show ?thesis by (simp add: pushRows_def)
next
  case (Some band)
  from outlinesById_Some [OF Some] have i: "ds_durationId ds \<in> o_id ` set os" .
  from assms Some
  have a: "pushAll (authorRowOf P (ds_durationId ds)) (ds_authors ds) = Inr rowsA"
    and t: "pushAll (textRowOf P (ds_durationId ds)) (ds_texts ds) = Inr rowsT"
    by (auto simp: pushRows_def split: sum.splits)
  have "as_durationId r \<in> o_id ` set os" if "r \<in> set rowsA" for r
    using pushAll_rows [OF a that] authorRowOf_durationId i by fastforce
  moreover have "ti_durationId r \<in> o_id ` set os" if "r \<in> set rowsT" for r
    using pushAll_rows [OF t that] textRowOf_durationId i by fastforce
  ultimately show ?thesis by simp
qed

lemma pushDatasets_durationId:
  "pushDatasets P os registry = Inr (rowsA, rowsT) \<Longrightarrow>
     (\<forall>r \<in> set rowsA. as_durationId r \<in> o_id ` set os)
   \<and> (\<forall>r \<in> set rowsT. ti_durationId r \<in> o_id ` set os)"
proof (induction registry arbitrary: rowsA rowsT)
  case Nil
  then show ?case by simp
next
  case (Cons ds rest)
  from Cons.prems obtain a t a' t' where 1: "pushRows P os ds = Inr (a, t)"
    and 2: "pushDatasets P os rest = Inr (a', t')"
    and 3: "rowsA = a @ a'" "rowsT = t @ t'"
    by (auto split: sum.splits prod.splits)
  from pushRows_durationId [OF 1] Cons.IH [OF 2] 3 show ?case by auto
qed

lemma pushDatasets_removeAll:
  assumes "pushRows P os ds = Inr ([], [])"
  shows "pushDatasets P os (removeAll ds registry) = pushDatasets P os registry"
proof (induction registry)
  case Nil
  show ?case by simp
next
  case (Cons x rest)
  show ?case
  proof (cases "x = ds")
    case True
    with assms Cons.IH show ?thesis by (simp split: sum.splits prod.splits)
  next
    case False
    then have "removeAll ds (x # rest) = x # removeAll ds rest" by auto
    then show ?thesis by (simp only: pushDatasets.simps Cons.IH)
  qed
qed

lemma rowsMemo_durationId:
  assumes "rowsMemo P os registry = Inr (rowsA, rowsT)"
  shows "(\<forall>r \<in> set rowsA. as_durationId r \<in> o_id ` set os)
       \<and> (\<forall>r \<in> set rowsT. ti_durationId r \<in> o_id ` set os)"
proof -
  from assms obtain a t where 1: "pushDatasets P os registry = Inr (a, t)"
    and 2: "set rowsA \<subseteq> set a" "set rowsT \<subseteq> set t"
    by (auto simp: rowsMemo_def split: sum.splits prod.splits)
  from pushDatasets_durationId [OF 1] 2 show ?thesis by blast
qed

lemma discovered_durationId:
  "ds \<in> set (useDiscoveredDatasets authorModules textModules) \<Longrightarrow>
     ds_durationId ds = ds_folder ds @ ''-composite''"
  by (auto simp: useDiscoveredDatasets_def Let_def split: option.splits if_splits)

lemma sample_registry:
  "useDiscoveredDatasets romeAuthorModules romeTextModules = [romeDataset, atlantisDataset]"
  by (simp add: useDiscoveredDatasets_def romeAuthorModules_def romeTextModules_def
        recordsOf_def Let_def romeDataset_def atlantisDataset_def)

lemma sample_outlines:
  "outlines 364 [romeDuration] =
     [\<lparr> o_id = ''rome-composite'', o_start = - 753, o_end = 476, o_y = 10, o_h = 24 \<rparr>]"
  by (simp add: outlines_def outlineOf_def keepsDuration_def romeDuration_def bandY_def
        bandH_def)

lemmas row_defs =
  authorRows_def textRows_def rowsMemo_def pushRows_def authorRowOf_def textRowOf_def
  outlinesById_def bandExtent_def toNumber_def getTextDate_def isFinite_def Let_def
  trimmed_def orElse_def truthyValue_def fieldOf_def authorStrings_def textStrings_def

lemma sample_rows:
  "rowsMemo noParse (outlines 364 [romeDuration]) [romeDataset, atlantisDataset]
     = Inr ([\<lparr> as_durationId = ''rome-composite'', as_start = 0, as_end = 14 \<rparr>],
            [\<lparr> ti_durationId = ''rome-composite'', ti_when = 0 \<rparr>])"
  by (simp add: sample_outlines row_defs noParse_def romeDataset_def atlantisDataset_def
        augustus_def seneca_def resGestae_def fragment_def)

text \<open>
  C9 fails on the code. The guards test \<open>Number.isFinite(Number(field))\<close>, and \<open>Number\<close>
  converts \<open>null\<close> to 0: the author whose birth year is \<open>null\<close> gets a row that starts at
  year 0, and the text whose date is \<open>null\<close> a row at year 0, while the author and the text
  whose year is absent get none. The \<open>.trim()\<close> statements run before the guard: a record
  whose birth year is absent and whose name is a number makes the memo raise a
  \<open>TypeError\<close>, and so does an element that is \<open>null\<close>.
\<close>

theorem null_year_row_produced:
  "\<not> holdsFiniteNumber (fieldOf augustus ''Dataviz_birth'')
   \<and> \<not> holdsFiniteNumber (fieldOf resGestae ''Dataviz date'')
   \<and> authorRows noParse (outlines 364 [romeDuration])
         (useDiscoveredDatasets romeAuthorModules romeTextModules)
       = Inr [\<lparr> as_durationId = ''rome-composite'', as_start = 0, as_end = 14 \<rparr>]
   \<and> textRows noParse (outlines 364 [romeDuration])
         (useDiscoveredDatasets romeAuthorModules romeTextModules)
       = Inr [\<lparr> ti_durationId = ''rome-composite'', ti_when = 0 \<rparr>]
   \<and> \<not> holdsFiniteNumber (fieldOf numberedAuthor ''Dataviz_birth'')
   \<and> authorRows noParse (outlines 364 [romeDuration])
         [romeDataset \<lparr> ds_authors := [Some seneca, Some numberedAuthor] \<rparr>] = Inl TypeError
   \<and> authorRows noParse (outlines 364 [romeDuration])
         [romeDataset \<lparr> ds_authors := [Some seneca, None] \<rparr>] = Inl TypeError
   \<and> textRows noParse (outlines 364 [romeDuration])
         [romeDataset \<lparr> ds_texts := [Some fragment, None] \<rparr>] = Inl TypeError"
proof -
  have 1: "\<not> holdsFiniteNumber (fieldOf augustus ''Dataviz_birth'')"
    by (simp add: holdsFiniteNumber_def fieldOf_def augustus_def)
  have 2: "\<not> holdsFiniteNumber (fieldOf resGestae ''Dataviz date'')"
    by (simp add: holdsFiniteNumber_def fieldOf_def resGestae_def)
  have 3: "authorRows noParse (outlines 364 [romeDuration])
         (useDiscoveredDatasets romeAuthorModules romeTextModules)
       = Inr [\<lparr> as_durationId = ''rome-composite'', as_start = 0, as_end = 14 \<rparr>]"
    by (simp add: sample_registry authorRows_def sample_rows)
  have 4: "textRows noParse (outlines 364 [romeDuration])
         (useDiscoveredDatasets romeAuthorModules romeTextModules)
       = Inr [\<lparr> ti_durationId = ''rome-composite'', ti_when = 0 \<rparr>]"
    by (simp add: sample_registry textRows_def sample_rows)
  have 5: "\<not> holdsFiniteNumber (fieldOf numberedAuthor ''Dataviz_birth'')"
    by (simp add: holdsFiniteNumber_def fieldOf_def numberedAuthor_def)
  have 6: "authorRows noParse (outlines 364 [romeDuration])
         [romeDataset \<lparr> ds_authors := [Some seneca, Some numberedAuthor] \<rparr>] = Inl TypeError"
    by (simp add: sample_outlines row_defs noParse_def romeDataset_def seneca_def
          numberedAuthor_def)
  have 7: "authorRows noParse (outlines 364 [romeDuration])
         [romeDataset \<lparr> ds_authors := [Some seneca, None] \<rparr>] = Inl TypeError"
    by (simp add: sample_outlines row_defs noParse_def romeDataset_def seneca_def)
  have 8: "textRows noParse (outlines 364 [romeDuration])
         [romeDataset \<lparr> ds_texts := [Some fragment, None] \<rparr>] = Inl TypeError"
    by (simp add: sample_outlines row_defs noParse_def romeDataset_def augustus_def
          seneca_def fragment_def)
  from 1 2 3 4 5 6 7 8 show ?thesis by simp
qed

text \<open>
  C10. A discovered dataset has the duration id \<open>folder-composite\<close>. When no resolved
  outline has that id, the loop passes over the dataset: none of its records is read,
  nothing is pushed and nothing is raised, whatever its records. No author row and no
  text row carries its id, and the memo returns what it returns without the dataset.
\<close>

theorem unmatched_folder_excluded:
  assumes "ds \<in> set (useDiscoveredDatasets authorModules textModules)"
    and "ds_durationId ds \<notin> o_id ` set os"
  shows "ds_durationId ds = ds_folder ds @ ''-composite''
       \<and> pushRows P os ds = Inr ([], [])
       \<and> (\<forall>rows. authorRows P os (useDiscoveredDatasets authorModules textModules) = Inr rows
             \<longrightarrow> (\<forall>r \<in> set rows. as_durationId r \<noteq> ds_durationId ds))
       \<and> (\<forall>rows. textRows P os (useDiscoveredDatasets authorModules textModules) = Inr rows
             \<longrightarrow> (\<forall>r \<in> set rows. ti_durationId r \<noteq> ds_durationId ds))
       \<and> rowsMemo P os (removeAll ds (useDiscoveredDatasets authorModules textModules))
           = rowsMemo P os (useDiscoveredDatasets authorModules textModules)"
proof -
  let ?reg = "useDiscoveredDatasets authorModules textModules"
  have p: "pushRows P os ds = Inr ([], [])"
    using assms(2) by (rule pushRows_unmatched)
  have a: "as_durationId r \<noteq> ds_durationId ds"
    if "authorRows P os ?reg = Inr rows" "r \<in> set rows" for rows r
  proof -
    from that(1) obtain t where "rowsMemo P os ?reg = Inr (rows, t)"
      by (auto simp: authorRows_def split: sum.splits prod.splits)
    from rowsMemo_durationId [OF this] that(2) assms(2) show ?thesis by metis
  qed
  have t: "ti_durationId r \<noteq> ds_durationId ds"
    if "textRows P os ?reg = Inr rows" "r \<in> set rows" for rows r
  proof -
    from that(1) obtain a where "rowsMemo P os ?reg = Inr (a, rows)"
      by (auto simp: textRows_def split: sum.splits prod.splits)
    from rowsMemo_durationId [OF this] that(2) assms(2) show ?thesis by metis
  qed
  have m: "rowsMemo P os (removeAll ds ?reg) = rowsMemo P os ?reg"
    by (simp add: rowsMemo_def pushDatasets_removeAll [OF p])
  from discovered_durationId [OF assms(1)] p a t m show ?thesis by blast
qed

theorem unmatched_folder_excluded_witness:
  "atlantisDataset \<in> set (useDiscoveredDatasets romeAuthorModules romeTextModules)
   \<and> ds_durationId atlantisDataset \<notin> o_id ` set (outlines 364 [romeDuration])
   \<and> ds_durationId atlantisDataset = ''atlantis-composite''
   \<and> pushRows noParse (outlines 364 [romeDuration]) atlantisDataset = Inr ([], [])
   \<and> authorRows noParse (outlines 364 [romeDuration])
         (useDiscoveredDatasets romeAuthorModules romeTextModules)
       = Inr [\<lparr> as_durationId = ''rome-composite'', as_start = 0, as_end = 14 \<rparr>]
   \<and> textRows noParse (outlines 364 [romeDuration])
         (useDiscoveredDatasets romeAuthorModules romeTextModules)
       = Inr [\<lparr> ti_durationId = ''rome-composite'', ti_when = 0 \<rparr>]
   \<and> ''atlantis-composite'' \<notin> as_durationId `
         set [\<lparr> as_durationId = ''rome-composite'', as_start = 0, as_end = 14 \<rparr>]
   \<and> ''atlantis-composite'' \<notin> ti_durationId `
         set [\<lparr> ti_durationId = ''rome-composite'', ti_when = 0 \<rparr>]"
proof -
  have h1: "atlantisDataset \<in> set (useDiscoveredDatasets romeAuthorModules romeTextModules)"
    by (simp add: sample_registry)
  have h2: "ds_durationId atlantisDataset \<notin> o_id ` set (outlines 364 [romeDuration])"
    by (simp add: sample_outlines atlantisDataset_def)
  have h3: "authorRows noParse (outlines 364 [romeDuration])
         (useDiscoveredDatasets romeAuthorModules romeTextModules)
       = Inr [\<lparr> as_durationId = ''rome-composite'', as_start = 0, as_end = 14 \<rparr>]"
    by (simp add: sample_registry authorRows_def sample_rows)
  have h4: "textRows noParse (outlines 364 [romeDuration])
         (useDiscoveredDatasets romeAuthorModules romeTextModules)
       = Inr [\<lparr> ti_durationId = ''rome-composite'', ti_when = 0 \<rparr>]"
    by (simp add: sample_registry textRows_def sample_rows)
  have h5: "ds_durationId atlantisDataset = ''atlantis-composite''"
    by (simp add: atlantisDataset_def)
  from unmatched_folder_excluded [OF h1 h2, of noParse] h1 h2 h3 h4 h5 show ?thesis
    by (auto simp: image_iff)
qed

end
